theory Spec2Isabelle
  imports Main "HOL-Library.Finite_Map" "HOL-Library.Char_ord" "HOL-Library.List_Lexorder"
begin

section \<open>The callback registry of package callback\<close>

text \<open>
  A shallow embedding of the Go package \<open>callback\<close> (type \<open>Registry\<close> and its methods)
  together with the two predicates \<open>IsConfigured\<close> of the packages \<open>vapi\<close> and \<open>email\<close>
  that the registry consults.

  Go strings are byte strings, here \<open>string\<close>, a list of 8-bit characters. A Go map is
  a finite map (\<open>fmap\<close>); \<open>len(m)\<close> is \<open>fcard (fmdom m)\<close>. A Go error is a
  \<open>string option\<close>: \<open>None\<close> is \<open>nil\<close>, \<open>Some m\<close> is an error whose \<open>Error()\<close> text is \<open>m\<close>. The registry stores pointers; the model stores
  values and writes a mutated object back under the key it was found at. The two agree
  as long as every pending callback is stored under its own agent id and every pending
  group under its own id (\<open>wf_Registry\<close> below), which every operation maintains.
  The mutex is not modelled: every operation is one atomic step. Log output is not
  modelled. The Go variable \<open>group\<close> is written \<open>grp\<close>.
\<close>

subsection \<open>Data\<close>

datatype Time = TimeZero | TimeAt int

record Callback =
  cb_ID :: string
  cb_AgentID :: string
  cb_AgentName :: string
  cb_TaskSummary :: string
  cb_ProjectName :: string
  cb_Method :: string
  cb_CustomerPhone :: string
  cb_CustomerEmail :: string
  cb_CustomerName :: string
  cb_PersonaName :: string
  cb_RequestedAt :: Time
  cb_CompletedAt :: Time
  cb_Status :: string
  cb_Error :: string
  cb_GroupID :: string

record CompletionInfo =
  ci_AgentID :: string
  ci_AgentName :: string
  ci_Result :: string
  ci_ProjectName :: string
  ci_Error :: string

record CallbackGroup =
  grp_ID :: string
  grp_AgentIDs :: "string list"
  grp_Results :: "(string, CompletionInfo) fmap"
  grp_Method :: string
  grp_CustomerPhone :: string
  grp_CustomerEmail :: string
  grp_CustomerName :: string
  grp_PersonaName :: string
  grp_RequestedAt :: Time
  grp_CompletedAt :: Time
  grp_Status :: string
  grp_Error :: string

record AgentInfo =
  ai_ID :: string
  ai_Name :: string
  ai_TaskSummary :: string
  ai_ProjectName :: string

text \<open>The clients, as far as \<open>IsConfigured\<close> reads them.\<close>

record vapi_Client =
  vapi_apiKey :: string
  vapi_phoneID :: string
  vapi_assistantID :: string

record email_Client =
  email_host :: string
  email_port :: int
  email_user :: string
  email_password :: string
  email_from :: string

definition vapi_IsConfigured :: "vapi_Client \<Rightarrow> bool" where
  "vapi_IsConfigured c \<longleftrightarrow>
     vapi_apiKey c \<noteq> '''' \<and> vapi_phoneID c \<noteq> '''' \<and> vapi_assistantID c \<noteq> ''''"

definition email_IsConfigured :: "email_Client \<Rightarrow> bool" where
  "email_IsConfigured c \<longleftrightarrow> email_host c \<noteq> '''' \<and> email_from c \<noteq> ''''"

record Registry =
  callbacks :: "(string, Callback) fmap"
  groups :: "(string, CallbackGroup) fmap"
  history :: "Callback list"
  groupHistory :: "CallbackGroup list"
  vapiClient :: "vapi_Client option"
  emailClient :: "email_Client option"
  getServerURL :: "(string \<Rightarrow> string) option"
  agentValidator :: "(string \<Rightarrow> bool) option"
  baseDir :: string
  personaName :: string
  personaEmail :: string

text \<open>The document that \<open>persist\<close> marshals and \<open>load\<close> unmarshals into; a field that
  is \<open>nil\<close> after unmarshalling is \<open>None\<close>.\<close>

record persisted =
  p_Callbacks :: "(string, Callback) fmap option"
  p_Groups :: "(string, CallbackGroup) fmap option"
  p_History :: "Callback list option"
  p_GroupHistory :: "CallbackGroup list option"

subsection \<open>The outside world\<close>

text \<open>Arguments of the client calls the registry makes.\<close>

record vapi_CallbackContext =
  vctx_AgentName :: string
  vctx_TaskSummary :: string
  vctx_Result :: string
  vctx_ProjectName :: string

record email_CallbackContext =
  ectx_RecipientName :: string
  ectx_RecipientEmail :: string
  ectx_AgentID :: string
  ectx_AgentName :: string
  ectx_TaskSummary :: string
  ectx_ProjectName :: string
  ectx_Result :: string
  ectx_Error :: string
  ectx_ViewURL :: string
  ectx_Success :: bool

record email_AgentResult =
  ar_AgentID :: string
  ar_AgentName :: string
  ar_TaskSummary :: string
  ar_ProjectName :: string
  ar_Result :: string
  ar_Error :: string
  ar_Success :: bool

record email_BatchCallbackContext =
  bctx_RecipientName :: string
  bctx_RecipientEmail :: string
  bctx_Results :: "email_AgentResult list"
  bctx_ViewURL :: string

text \<open>One entry of the trace of client calls: \<open>vapiClient.Call(nil, phone, name, ctx)\<close>,
  \<open>emailClient.SendTaskComplete(ctx)\<close>, \<open>emailClient.SendBatchComplete(ctx)\<close>.\<close>

datatype effect =
  VapiCall string string vapi_CallbackContext
| SendTaskComplete email_CallbackContext
| SendBatchComplete email_BatchCallbackContext

text \<open>
  What a file holds. The JSON text that \<open>json.MarshalIndent\<close> produces is not modelled
  character by character: a file with well-formed JSON text is the document that
  \<open>json.Unmarshal\<close> reads from it, any other file is garbage.
\<close>

datatype file_content = Document persisted | Garbage string

text \<open>
  What one call of a registry operation meets outside the registry: the readings of
  \<open>time.Now().UnixNano()\<close> in the order they are taken, the error each client call
  returns, the order in which the n-th \<open>range\<close> over a map yields its keys, whether the
  file operations succeed (and what a failed write leaves behind), and the library
  functions \<open>json.MarshalIndent\<close>, \<open>json.Unmarshal\<close> and \<open>filepath.Join\<close>.
\<close>

record env =
  time_Now :: "nat \<Rightarrow> int"
  vapi_Call :: "string option"
  email_SendTaskComplete :: "string option"
  email_SendBatchComplete :: "string option"
  range_order :: "nat \<Rightarrow> string list"
  os_MkdirAll_ok :: bool
  os_WriteFile_ok :: bool
  os_WriteFile_residue :: "file_content option"
  os_ReadFile_ok :: bool
  json_Marshal :: "persisted \<Rightarrow> file_content option"
  json_Unmarshal :: "file_content \<Rightarrow> persisted option"
  filepath_Join :: "string list \<Rightarrow> string"

text \<open>The registry, the files on disk (path to content) and the trace of client calls.\<close>

record World =
  reg :: Registry
  files :: "string \<rightharpoonup> file_content"
  outbox :: "effect list"

subsection \<open>Formatting\<close>

text \<open>\<open>fmt.Sprintf("%d", n)\<close> for an integer.\<close>

fun digits :: "nat \<Rightarrow> string" where
  "digits n = (if n < 10 then [char_of (48 + n)]
               else digits (n div 10) @ [char_of (48 + n mod 10)])"

declare digits.simps [simp del]

definition itoa :: "int \<Rightarrow> string" where
  "itoa i = (if i < 0 then CHR ''-'' # digits (nat (- i)) else digits (nat i))"

subsection \<open>Persistence\<close>

definition callbacks_path :: "env \<Rightarrow> Registry \<Rightarrow> string" where
  "callbacks_path e r = filepath_Join e [baseDir r, ''tron.work'', ''callbacks.json'']"

definition persist :: "env \<Rightarrow> World \<Rightarrow> World" where
  "persist e w =
     (let path = callbacks_path e (reg w) in
      if \<not> os_MkdirAll_ok e then w
      else
        (case json_Marshal e
                \<lparr>p_Callbacks = Some (callbacks (reg w)),
                 p_Groups = Some (groups (reg w)),
                 p_History = Some (history (reg w)),
                 p_GroupHistory = Some (groupHistory (reg w))\<rparr> of
           None \<Rightarrow> w
         | Some content \<Rightarrow>
             if os_WriteFile_ok e then w\<lparr>files := (files w)(path \<mapsto> content)\<rparr>
             else w\<lparr>files := (files w)(path := os_WriteFile_residue e)\<rparr>))"

definition load :: "env \<Rightarrow> World \<Rightarrow> World" where
  "load e w =
     (let path = callbacks_path e (reg w) in
      case (if os_ReadFile_ok e then files w path else None) of
        None \<Rightarrow> w
      | Some content \<Rightarrow>
          (case json_Unmarshal e content of
             None \<Rightarrow> w
           | Some data \<Rightarrow>
               w\<lparr>reg := (reg w)
                  \<lparr>callbacks := (case p_Callbacks data of Some c \<Rightarrow> c | None \<Rightarrow> callbacks (reg w)),
                   groups := (case p_Groups data of Some g \<Rightarrow> g | None \<Rightarrow> groups (reg w)),
                   history := (case p_History data of Some h \<Rightarrow> h | None \<Rightarrow> history (reg w)),
                   groupHistory :=
                     (case p_GroupHistory data of Some h \<Rightarrow> h | None \<Rightarrow> groupHistory (reg w))\<rparr>\<rparr>))"

definition NewRegistry ::
  "env \<Rightarrow> vapi_Client option \<Rightarrow> email_Client option \<Rightarrow> string \<Rightarrow> string \<Rightarrow> string
     \<Rightarrow> World \<Rightarrow> World" where
  "NewRegistry e vc ec dir pname pemail w =
     load e (w\<lparr>reg :=
       \<lparr>callbacks = fmempty, groups = fmempty, history = [], groupHistory = [],
        vapiClient = vc, emailClient = ec, getServerURL = None, agentValidator = None,
        baseDir = dir, personaName = pname, personaEmail = pemail\<rparr>\<rparr>)"

subsection \<open>Capabilities\<close>

definition CanCall :: "Registry \<Rightarrow> bool" where
  "CanCall r = (case vapiClient r of None \<Rightarrow> False | Some c \<Rightarrow> vapi_IsConfigured c)"

definition CanEmail :: "Registry \<Rightarrow> bool" where
  "CanEmail r = (case emailClient r of None \<Rightarrow> False | Some c \<Rightarrow> email_IsConfigured c)"

subsection \<open>Registration\<close>

definition Register ::
  "env \<Rightarrow> string \<Rightarrow> string \<Rightarrow> string \<Rightarrow> string \<Rightarrow> string \<Rightarrow> string \<Rightarrow> string \<Rightarrow> string
     \<Rightarrow> World \<Rightarrow> (string + Callback) \<times> World" where
  "Register e agentID agentName taskSummary projectName method phone emailAddr customerName w =
     (if (method = ''call'' \<or> method = ''both'') \<and> phone = '''' then
        (Inl ''phone number required for call callback'', w)
      else if (method = ''call'' \<or> method = ''both'') \<and> \<not> CanCall (reg w) then
        (Inl ''VAPI not configured for call callbacks'', w)
      else if (method = ''email'' \<or> method = ''both'') \<and> emailAddr = '''' then
        (Inl ''email address required for email callback'', w)
      else if (method = ''email'' \<or> method = ''both'') \<and> \<not> CanEmail (reg w) then
        (Inl ''email not configured for email callbacks'', w)
      else
        (let cb = \<lparr>cb_ID = ''cb-'' @ agentID @ ''-'' @ itoa (time_Now e 0),
                   cb_AgentID = agentID,
                   cb_AgentName = agentName,
                   cb_TaskSummary = taskSummary,
                   cb_ProjectName = projectName,
                   cb_Method = method,
                   cb_CustomerPhone = phone,
                   cb_CustomerEmail = emailAddr,
                   cb_CustomerName = customerName,
                   cb_PersonaName = personaName (reg w),
                   cb_RequestedAt = TimeAt (time_Now e 1),
                   cb_CompletedAt = TimeZero,
                   cb_Status = ''pending'',
                   cb_Error = '''',
                   cb_GroupID = ''''\<rparr>
         in (Inr cb,
             persist e (w\<lparr>reg := (reg w)\<lparr>callbacks := fmupd agentID cb (callbacks (reg w))\<rparr>\<rparr>))))"

text \<open>The callback that the loop of \<open>RegisterBatch\<close> builds for the i-th agent.\<close>

definition batchCallback ::
  "env \<Rightarrow> Registry \<Rightarrow> string \<Rightarrow> string \<Rightarrow> string \<Rightarrow> string \<Rightarrow> string \<Rightarrow> nat \<Rightarrow> AgentInfo
     \<Rightarrow> Callback" where
  "batchCallback e r groupID method phone emailAddr customerName i agent =
     \<lparr>cb_ID = ''cb-'' @ ai_ID agent @ ''-'' @ itoa (time_Now e (2 * i + 1)),
      cb_AgentID = ai_ID agent,
      cb_AgentName = ai_Name agent,
      cb_TaskSummary = ai_TaskSummary agent,
      cb_ProjectName = ai_ProjectName agent,
      cb_Method = method,
      cb_CustomerPhone = phone,
      cb_CustomerEmail = emailAddr,
      cb_CustomerName = customerName,
      cb_PersonaName = personaName r,
      cb_RequestedAt = TimeAt (time_Now e (2 * i + 2)),
      cb_CompletedAt = TimeZero,
      cb_Status = ''pending'',
      cb_Error = '''',
      cb_GroupID = groupID\<rparr>"

text \<open>The loop \<open>for i, agent := range agents\<close> of \<open>RegisterBatch\<close>, from index \<open>i\<close> on.\<close>

fun registerMembers ::
  "(nat \<Rightarrow> AgentInfo \<Rightarrow> Callback) \<Rightarrow> nat \<Rightarrow> AgentInfo list
     \<Rightarrow> (string, Callback) fmap \<Rightarrow> (string, Callback) fmap" where
  "registerMembers mk i [] cbs = cbs"
| "registerMembers mk i (agent # agents) cbs =
     registerMembers mk (Suc i) agents (fmupd (ai_ID agent) (mk i agent) cbs)"

definition batchGroupID :: "env \<Rightarrow> string" where
  "batchGroupID e = ''grp-'' @ itoa (time_Now e 0)"

definition RegisterBatch ::
  "env \<Rightarrow> AgentInfo list \<Rightarrow> string \<Rightarrow> string \<Rightarrow> string \<Rightarrow> string
     \<Rightarrow> World \<Rightarrow> (string + CallbackGroup) \<times> World" where
  "RegisterBatch e agents method phone emailAddr customerName w =
     (if (method = ''call'' \<or> method = ''both'') \<and> phone = '''' then
        (Inl ''phone number required for call callback'', w)
      else if (method = ''email'' \<or> method = ''both'') \<and> emailAddr = '''' then
        (Inl ''email address required for email callback'', w)
      else
        (let groupID = batchGroupID e;
             cbs = registerMembers
                     (batchCallback e (reg w) groupID method phone emailAddr customerName)
                     0 agents (callbacks (reg w));
             grp = \<lparr>grp_ID = groupID,
                      grp_AgentIDs = map ai_ID agents,
                      grp_Results = fmempty,
                      grp_Method = method,
                      grp_CustomerPhone = phone,
                      grp_CustomerEmail = emailAddr,
                      grp_CustomerName = customerName,
                      grp_PersonaName = personaName (reg w),
                      grp_RequestedAt = TimeAt (time_Now e (2 * length agents + 1)),
                      grp_CompletedAt = TimeZero,
                      grp_Status = ''pending'',
                      grp_Error = ''''\<rparr>
         in (Inr grp,
             persist e (w\<lparr>reg := (reg w)
               \<lparr>callbacks := cbs, groups := fmupd groupID grp (groups (reg w))\<rparr>\<rparr>))))"

subsection \<open>Dispatch\<close>

text \<open>The context \<open>executeCall\<close> builds for the call.\<close>

definition callContext :: "Callback \<Rightarrow> CompletionInfo \<Rightarrow> vapi_CallbackContext" where
  "callContext cb info =
     \<lparr>vctx_AgentName = cb_AgentName cb,
      vctx_TaskSummary = cb_TaskSummary cb,
      vctx_Result = ci_Result info,
      vctx_ProjectName = cb_ProjectName cb\<rparr>"

definition executeCall :: "env \<Rightarrow> Callback \<Rightarrow> CompletionInfo \<Rightarrow> World \<Rightarrow> string option \<times> World" where
  "executeCall e cb info w =
     (if \<not> CanCall (reg w) then (Some ''VAPI client not configured'', w)
      else
        (vapi_Call e,
         w\<lparr>outbox := outbox w @
              [VapiCall (cb_CustomerPhone cb) (cb_CustomerName cb) (callContext cb info)]\<rparr>))"

text \<open>The context \<open>executeEmail\<close> builds for the email.\<close>

definition emailContext :: "Registry \<Rightarrow> Callback \<Rightarrow> CompletionInfo \<Rightarrow> email_CallbackContext" where
  "emailContext r cb info =
     (let viewURL = (case getServerURL r of
                       None \<Rightarrow> ''''
                     | Some f \<Rightarrow> if cb_ProjectName cb \<noteq> '''' then f (cb_ProjectName cb) else '''')
      in \<lparr>ectx_RecipientName = cb_CustomerName cb,
          ectx_RecipientEmail = cb_CustomerEmail cb,
          ectx_AgentID = cb_AgentID cb,
          ectx_AgentName = cb_AgentName cb,
          ectx_TaskSummary = cb_TaskSummary cb,
          ectx_ProjectName = cb_ProjectName cb,
          ectx_Result = ci_Result info,
          ectx_Error = ci_Error info,
          ectx_ViewURL = viewURL,
          ectx_Success = (ci_Error info = '''')\<rparr>)"

definition executeEmail :: "env \<Rightarrow> Callback \<Rightarrow> CompletionInfo \<Rightarrow> World \<Rightarrow> string option \<times> World" where
  "executeEmail e cb info w =
     (if \<not> CanEmail (reg w) then (Some ''email client not configured'', w)
      else
        (email_SendTaskComplete e,
         w\<lparr>outbox := outbox w @ [SendTaskComplete (emailContext (reg w) cb info)]\<rparr>))"

definition executeBatchCall :: "env \<Rightarrow> CallbackGroup \<Rightarrow> World \<Rightarrow> string option \<times> World" where
  "executeBatchCall e grp w = (Some ''batch calls not yet implemented'', w)"

text \<open>The values a \<open>range\<close> over a map yields when its keys come in the given order.\<close>

definition range_values :: "string list \<Rightarrow> (string, 'v) fmap \<Rightarrow> 'v list" where
  "range_values order m = List.map_filter (fmlookup m) order"

text \<open>The context \<open>executeBatchEmail\<close> builds: the view URL from the first result (in the
  order of the first \<open>range\<close>) that names a project, the results in the order of the second.\<close>

definition batchContext :: "env \<Rightarrow> Registry \<Rightarrow> CallbackGroup \<Rightarrow> email_BatchCallbackContext" where
  "batchContext e r grp =
     (let viewURL =
            (case getServerURL r of
               None \<Rightarrow> ''''
             | Some f \<Rightarrow>
                 (case List.find (\<lambda>info. ci_ProjectName info \<noteq> '''')
                         (range_values (range_order e 0) (grp_Results grp)) of
                    None \<Rightarrow> ''''
                  | Some info \<Rightarrow> f (ci_ProjectName info)));
          results =
            map (\<lambda>info. \<lparr>ar_AgentID = ci_AgentID info,
                          ar_AgentName = ci_AgentName info,
                          ar_TaskSummary = '''',
                          ar_ProjectName = '''',
                          ar_Result = ci_Result info,
                          ar_Error = ci_Error info,
                          ar_Success = (ci_Error info = '''')\<rparr>)
                (range_values (range_order e 1) (grp_Results grp))
      in \<lparr>bctx_RecipientName = grp_CustomerName grp,
          bctx_RecipientEmail = grp_CustomerEmail grp,
          bctx_Results = results,
          bctx_ViewURL = viewURL\<rparr>)"

definition executeBatchEmail :: "env \<Rightarrow> CallbackGroup \<Rightarrow> World \<Rightarrow> string option \<times> World" where
  "executeBatchEmail e grp w =
     (if \<not> CanEmail (reg w) then (Some ''email client not configured'', w)
      else
        (email_SendBatchComplete e,
         w\<lparr>outbox := outbox w @ [SendBatchComplete (batchContext e (reg w) grp)]\<rparr>))"

text \<open>The composition of the two errors in the \<open>"both"\<close> branch of either dispatch:
  \<open>execErr\<close> after the call, then after the email.\<close>

definition bothErrors :: "string option \<Rightarrow> string option \<Rightarrow> string option" where
  "bothErrors callErr emailErr =
     (case emailErr of
        None \<Rightarrow> callErr
      | Some err \<Rightarrow>
          (case callErr of
             Some execErr \<Rightarrow> Some (''call: '' @ execErr @ ''; email: '' @ err)
           | None \<Rightarrow> Some err))"

text \<open>The \<open>switch cb.Method\<close> of \<open>executeCallback\<close>: the value of \<open>execErr\<close> after it,
  and the world after the client calls it made.\<close>

definition singleDispatch ::
  "env \<Rightarrow> Callback \<Rightarrow> CompletionInfo \<Rightarrow> World \<Rightarrow> string option \<times> World" where
  "singleDispatch e cb info w =
     (if cb_Method cb = ''call'' then executeCall e cb info w
      else if cb_Method cb = ''email'' then executeEmail e cb info w
      else if cb_Method cb = ''both'' then
        (let (callErr, wa) = executeCall e cb info w;
             (emailErr, wb) = executeEmail e cb info wa
         in (bothErrors callErr emailErr, wb))
      else (None, w))"

definition executeCallback :: "env \<Rightarrow> Callback \<Rightarrow> CompletionInfo \<Rightarrow> World \<Rightarrow> World" where
  "executeCallback e cb0 info w =
     (let cb = cb0\<lparr>cb_CompletedAt := TimeAt (time_Now e 0)\<rparr>;
          (execErr, w1) = singleDispatch e cb info w;
          cb' = (case execErr of
                   Some msg \<Rightarrow> cb\<lparr>cb_Status := ''failed'', cb_Error := msg\<rparr>
                 | None \<Rightarrow> cb\<lparr>cb_Status := ''completed''\<rparr>);
          h = history (reg w1) @ [cb']
      in w1\<lparr>reg := (reg w1)
            \<lparr>callbacks := fmdrop (cb_AgentID cb) (callbacks (reg w1)),
             history := (if length h > 100 then drop 1 h else h)\<rparr>\<rparr>)"

text \<open>The loop \<open>for _, agentID := range group.AgentIDs\<close> of \<open>executeGroupCallback\<close>,
  on the pending map and the history.\<close>

fun retireMembers ::
  "CallbackGroup \<Rightarrow> string list \<Rightarrow> (string, Callback) fmap \<times> Callback list
     \<Rightarrow> (string, Callback) fmap \<times> Callback list" where
  "retireMembers grp [] (cbs, h) = (cbs, h)"
| "retireMembers grp (agentID # ids) (cbs, h) =
     (case fmlookup cbs agentID of
        Some cb \<Rightarrow>
          retireMembers grp ids
            (fmdrop agentID cbs,
             h @ [cb\<lparr>cb_Status := grp_Status grp, cb_CompletedAt := grp_CompletedAt grp\<rparr>])
      | None \<Rightarrow> retireMembers grp ids (cbs, h))"

text \<open>The \<open>switch group.Method\<close> of \<open>executeGroupCallback\<close>.\<close>

definition groupDispatch :: "env \<Rightarrow> CallbackGroup \<Rightarrow> World \<Rightarrow> string option \<times> World" where
  "groupDispatch e grp w =
     (if grp_Method grp = ''call'' then executeBatchCall e grp w
      else if grp_Method grp = ''email'' then executeBatchEmail e grp w
      else if grp_Method grp = ''both'' then
        (let (callErr, wa) = executeBatchCall e grp w;
             (emailErr, wb) = executeBatchEmail e grp wa
         in (bothErrors callErr emailErr, wb))
      else (None, w))"

definition executeGroupCallback :: "env \<Rightarrow> CallbackGroup \<Rightarrow> World \<Rightarrow> World" where
  "executeGroupCallback e grp0 w =
     (let grp = grp0\<lparr>grp_CompletedAt := TimeAt (time_Now e 0)\<rparr>;
          (execErr, w1) = groupDispatch e grp w;
          grp' = (case execErr of
                    Some msg \<Rightarrow> grp\<lparr>grp_Status := ''failed'', grp_Error := msg\<rparr>
                  | None \<Rightarrow> grp\<lparr>grp_Status := ''completed''\<rparr>);
          (cbs, h) = retireMembers grp' (grp_AgentIDs grp')
                       (callbacks (reg w1), history (reg w1));
          gh = groupHistory (reg w1) @ [grp']
      in w1\<lparr>reg := (reg w1)
            \<lparr>callbacks := cbs,
             history := (if length h > 100 then drop (length h - 100) h else h),
             groups := fmdrop (grp_ID grp') (groups (reg w1)),
             groupHistory := (if length gh > 50 then drop 1 gh else gh)\<rparr>\<rparr>)"

subsection \<open>Completion, cancellation, cleanup\<close>

definition OnAgentComplete :: "env \<Rightarrow> CompletionInfo \<Rightarrow> World \<Rightarrow> World" where
  "OnAgentComplete e info w =
     (case fmlookup (callbacks (reg w)) (ci_AgentID info) of
        None \<Rightarrow> w
      | Some cb \<Rightarrow>
          if cb_GroupID cb \<noteq> '''' then
            (case fmlookup (groups (reg w)) (cb_GroupID cb) of
               None \<Rightarrow> w
             | Some grp0 \<Rightarrow>
                 (let grp = grp0\<lparr>grp_Results :=
                                fmupd (ci_AgentID info) info (grp_Results grp0)\<rparr>;
                      w1 = w\<lparr>reg := (reg w)
                             \<lparr>groups := fmupd (cb_GroupID cb) grp (groups (reg w))\<rparr>\<rparr>
                  in persist e
                       (if fcard (fmdom (grp_Results grp)) = length (grp_AgentIDs grp)
                        then executeGroupCallback e grp w1 else w1)))
          else persist e (executeCallback e cb info w))"

definition Get :: "string \<Rightarrow> World \<Rightarrow> Callback option" where
  "Get agentID w = fmlookup (callbacks (reg w)) agentID"

definition Cancel :: "env \<Rightarrow> string \<Rightarrow> World \<Rightarrow> bool \<times> World" where
  "Cancel e agentID w =
     (case fmlookup (callbacks (reg w)) agentID of
        Some cb \<Rightarrow>
          (True, persist e (w\<lparr>reg := (reg w)\<lparr>callbacks := fmdrop agentID (callbacks (reg w))\<rparr>\<rparr>))
      | None \<Rightarrow> (False, w))"

definition ListPending :: "env \<Rightarrow> World \<Rightarrow> Callback list" where
  "ListPending e w = range_values (range_order e 0) (callbacks (reg w))"

definition ListHistory :: "World \<Rightarrow> Callback list" where
  "ListHistory w = history (reg w)"

text \<open>The loop \<open>for agentID, cb := range r.callbacks\<close> of \<open>cleanupOrphaned\<close>, its keys
  coming in the given order.\<close>

fun orphanLoop :: "(string \<Rightarrow> bool) \<Rightarrow> string list \<Rightarrow> Registry \<Rightarrow> Registry" where
  "orphanLoop valid [] r = r"
| "orphanLoop valid (agentID # ids) r =
     (case fmlookup (callbacks r) agentID of
        None \<Rightarrow> orphanLoop valid ids r
      | Some cb \<Rightarrow>
          if \<not> valid agentID then
            orphanLoop valid ids
              (r\<lparr>history := history r @ [cb\<lparr>cb_Status := ''orphaned''\<rparr>],
                 callbacks := fmdrop agentID (callbacks r)\<rparr>)
          else orphanLoop valid ids r)"

definition cleanupOrphaned :: "env \<Rightarrow> World \<Rightarrow> World" where
  "cleanupOrphaned e w =
     (case agentValidator (reg w) of
        None \<Rightarrow> w
      | Some valid \<Rightarrow> persist e (w\<lparr>reg := orphanLoop valid (range_order e 0) (reg w)\<rparr>))"

definition SetAgentValidator :: "env \<Rightarrow> (string \<Rightarrow> bool) option \<Rightarrow> World \<Rightarrow> World" where
  "SetAgentValidator e fn w = cleanupOrphaned e (w\<lparr>reg := (reg w)\<lparr>agentValidator := fn\<rparr>\<rparr>)"

definition SetServerURLFunc :: "(string \<Rightarrow> string) option \<Rightarrow> World \<Rightarrow> World" where
  "SetServerURLFunc fn w = w\<lparr>reg := (reg w)\<lparr>getServerURL := fn\<rparr>\<rparr>"

text \<open>A \<open>range\<close> over a map yields each of its keys once.\<close>

definition range_of :: "string list \<Rightarrow> (string, 'v) fmap \<Rightarrow> bool" where
  "range_of order m \<longleftrightarrow> distinct order \<and> fset_of_list order = fmdom m"

subsection \<open>Sequences of operations\<close>

text \<open>Completion events handled one after the other, each in its own environment.\<close>

fun completeAll :: "(env \<times> CompletionInfo) list \<Rightarrow> World \<Rightarrow> World" where
  "completeAll [] w = w"
| "completeAll ((e, info) # evs) w = completeAll evs (OnAgentComplete e info w)"

text \<open>The mutating operations the registry exports, and a run of them.\<close>

datatype operation =
  OpRegister string string string string string string string string
| OpRegisterBatch "AgentInfo list" string string string string
| OpOnAgentComplete CompletionInfo
| OpCancel string
| OpSetAgentValidator "(string \<Rightarrow> bool) option"
| OpSetServerURLFunc "(string \<Rightarrow> string) option"

fun perform :: "env \<Rightarrow> operation \<Rightarrow> World \<Rightarrow> World" where
  "perform e (OpRegister agentID agentName taskSummary projectName method phone emailAddr customerName) w =
     snd (Register e agentID agentName taskSummary projectName method phone emailAddr customerName w)"
| "perform e (OpRegisterBatch agents method phone emailAddr customerName) w =
     snd (RegisterBatch e agents method phone emailAddr customerName w)"
| "perform e (OpOnAgentComplete info) w = OnAgentComplete e info w"
| "perform e (OpCancel agentID) w = snd (Cancel e agentID w)"
| "perform e (OpSetAgentValidator fn) w = SetAgentValidator e fn w"
| "perform e (OpSetServerURLFunc fn) w = SetServerURLFunc fn w"

fun run :: "(env \<times> operation) list \<Rightarrow> World \<Rightarrow> World" where
  "run [] w = w"
| "run ((e, op) # ops) w = run ops (perform e op w)"

text \<open>Whether an operation is a \<open>RegisterBatch\<close> that would name its group \<open>gid\<close>.\<close>

fun names_group :: "string \<Rightarrow> env \<times> operation \<Rightarrow> bool" where
  "names_group gid (e, OpRegisterBatch agents method phone emailAddr customerName) =
     (batchGroupID e = gid)"
| "names_group gid (e, op) = False"

subsection \<open>Well-formed registries\<close>

text \<open>Every pending callback is stored under its own agent id and every pending group
  under its own id.\<close>

definition wf_Registry :: "Registry \<Rightarrow> bool" where
  "wf_Registry r \<longleftrightarrow>
     fmpred (\<lambda>agentID cb. cb_AgentID cb = agentID) (callbacks r) \<and>
     fmpred (\<lambda>groupID grp. grp_ID grp = groupID) (groups r)"

text \<open>The state of a batch while it waits at its barrier. Since \<open>w0\<close>, the state right
  after \<open>RegisterBatch\<close>, nothing but the result map of the group has changed: the group
  is pending under \<open>gid\<close> with member list \<open>ids\<close> and results for exactly the agents in
  \<open>D\<close>, and every member has a pending callback pointing at the group.\<close>

definition waiting :: "string \<Rightarrow> string list \<Rightarrow> string set \<Rightarrow> World \<Rightarrow> World \<Rightarrow> bool" where
  "waiting gid ids D w0 w \<longleftrightarrow>
     gid \<noteq> '''' \<and>
     reg w = (reg w0)\<lparr>groups := groups (reg w)\<rparr> \<and>
     outbox w = outbox w0 \<and>
     (\<exists>grp0 res.
        fmlookup (groups (reg w0)) gid = Some grp0 \<and> grp_ID grp0 = gid \<and>
        grp_AgentIDs grp0 = ids \<and> grp_Status grp0 = ''pending'' \<and>
        fmdom' res = D \<and>
        fmlookup (groups (reg w)) gid = Some (grp0\<lparr>grp_Results := res\<rparr>)) \<and>
     (\<forall>a \<in> set ids. \<exists>cb. fmlookup (callbacks (reg w0)) a = Some cb \<and>
            cb_GroupID cb = gid \<and> cb_Status cb = ''pending'')"

text \<open>The state of a group without members that stays behind: the pending groups are
  stored under their own ids, the group is pending under \<open>gid\<close> with an empty member list,
  and every retired group that bears the id \<open>gid\<close> is one of \<open>old\<close>.\<close>

definition lingering :: "string \<Rightarrow> CallbackGroup set \<Rightarrow> World \<Rightarrow> bool" where
  "lingering gid old w \<longleftrightarrow>
     fmpred (\<lambda>groupID grp. grp_ID grp = groupID) (groups (reg w)) \<and>
     (\<exists>grp. fmlookup (groups (reg w)) gid = Some grp \<and> grp_AgentIDs grp = [] \<and>
            grp_Status grp = ''pending'') \<and>
     (\<forall>h \<in> set (groupHistory (reg w)). grp_ID h = gid \<longrightarrow> h \<in> old)"

subsection \<open>What encoding/json does to a document\<close>

text \<open>
  Modelled from the library: \<open>encoding/json\<close> is not code of this repository. Marshalling
  a Go string writes each byte that does not begin a well-formed UTF-8 encoding as the
  replacement character U+FFFD; unmarshalling reads the text back as written. A
  \<open>time.Time\<close> is its instant here, which the RFC 3339 text with nanoseconds keeps (its
  monotonic clock reading and its location are not part of the model). Everything else of the
  documents written here (field names, \<open>omitempty\<close>, escapes, indentation) comes back as
  it went in.
\<close>

text \<open>Modelled from the library (\<open>unicode/utf8\<close>), \<open>utf8.DecodeRuneInString\<close>: the
  number of bytes of the rune that a string starts with, and 0 where Go returns \<open>RuneError\<close> with size 1. The second byte of a rune has to
  lie between \<open>lo\<close> and \<open>hi\<close>, every further one between 0x80 and 0xBF.\<close>

definition byte_between :: "nat \<Rightarrow> nat \<Rightarrow> char \<Rightarrow> bool" where
  "byte_between lo hi c \<longleftrightarrow> lo \<le> of_char c \<and> (of_char c :: nat) \<le> hi"

fun utf8_two :: "nat \<Rightarrow> nat \<Rightarrow> string \<Rightarrow> nat" where
  "utf8_two lo hi (s1 # cs) = (if byte_between lo hi s1 then 2 else 0)"
| "utf8_two lo hi cs = 0"

fun utf8_three :: "nat \<Rightarrow> nat \<Rightarrow> string \<Rightarrow> nat" where
  "utf8_three lo hi (s1 # s2 # cs) =
     (if byte_between lo hi s1 \<and> byte_between 0x80 0xBF s2 then 3 else 0)"
| "utf8_three lo hi cs = 0"

fun utf8_four :: "nat \<Rightarrow> nat \<Rightarrow> string \<Rightarrow> nat" where
  "utf8_four lo hi (s1 # s2 # s3 # cs) =
     (if byte_between lo hi s1 \<and> byte_between 0x80 0xBF s2 \<and> byte_between 0x80 0xBF s3
      then 4 else 0)"
| "utf8_four lo hi cs = 0"

fun utf8_rune_size :: "string \<Rightarrow> nat" where
  "utf8_rune_size [] = 0"
| "utf8_rune_size (c # cs) =
     (let s0 = (of_char c :: nat) in
      if s0 < 0x80 then 1
      else if 0xC2 \<le> s0 \<and> s0 \<le> 0xDF then utf8_two 0x80 0xBF cs
      else if s0 = 0xE0 then utf8_three 0xA0 0xBF cs
      else if 0xE1 \<le> s0 \<and> s0 \<le> 0xEC then utf8_three 0x80 0xBF cs
      else if s0 = 0xED then utf8_three 0x80 0x9F cs
      else if s0 = 0xEE \<or> s0 = 0xEF then utf8_three 0x80 0xBF cs
      else if s0 = 0xF0 then utf8_four 0x90 0xBF cs
      else if 0xF1 \<le> s0 \<and> s0 \<le> 0xF3 then utf8_four 0x80 0xBF cs
      else if s0 = 0xF4 then utf8_four 0x80 0x8F cs
      else 0)"

text \<open>Modelled from the library (\<open>unicode/utf8\<close>), \<open>utf8.ValidString\<close>, with \<open>n\<close> the
  number of bytes of the current rune still to pass.\<close>

fun utf8_valid_from :: "nat \<Rightarrow> string \<Rightarrow> bool" where
  "utf8_valid_from n [] = True"
| "utf8_valid_from (Suc n) (c # cs) = utf8_valid_from n cs"
| "utf8_valid_from 0 (c # cs) =
     (case utf8_rune_size (c # cs) of 0 \<Rightarrow> False | Suc k \<Rightarrow> utf8_valid_from k cs)"

definition utf8_ValidString :: "string \<Rightarrow> bool" where
  "utf8_ValidString s = utf8_valid_from 0 s"

text \<open>Modelled from the library (\<open>encoding/json\<close>). A string after marshalling and
  unmarshalling: the loop of the string encoder, with
  \<open>n\<close> the number of bytes of the current rune still to copy.\<close>

fun json_string_from :: "nat \<Rightarrow> string \<Rightarrow> string" where
  "json_string_from n [] = []"
| "json_string_from (Suc n) (c # cs) = c # json_string_from n cs"
| "json_string_from 0 (c # cs) =
     (case utf8_rune_size (c # cs) of
        0 \<Rightarrow> [CHR 0xEF, CHR 0xBF, CHR 0xBD] @ json_string_from 0 cs
      | Suc k \<Rightarrow> c # json_string_from k cs)"

definition json_string :: "string \<Rightarrow> string" where
  "json_string s = json_string_from 0 s"

text \<open>Modelled from the library (\<open>encoding/json\<close>). A map with string keys after
  marshalling and unmarshalling. The encoder writes the entries in the order of their
  keys, the decoder stores them one after the other, so of two keys that become the same
  text the greater one keeps its entry.\<close>

definition json_map :: "('v \<Rightarrow> 'v) \<Rightarrow> (string, 'v) fmap \<Rightarrow> (string, 'v) fmap" where
  "json_map f m =
     fmap_of_list
       (rev (map (\<lambda>k. (json_string k, f (the (fmlookup m k))))
                 (sorted_list_of_fset (fmdom m))))"

text \<open>Modelled from the library (\<open>encoding/json\<close>). The values of the persisted
  document after marshalling and unmarshalling, field by field as the struct tags name
  them: every string goes through the string encoder, a time keeps its instant.\<close>

definition json_Callback :: "Callback \<Rightarrow> Callback" where
  "json_Callback cb =
     cb\<lparr>cb_ID := json_string (cb_ID cb),
        cb_AgentID := json_string (cb_AgentID cb),
        cb_AgentName := json_string (cb_AgentName cb),
        cb_TaskSummary := json_string (cb_TaskSummary cb),
        cb_ProjectName := json_string (cb_ProjectName cb),
        cb_Method := json_string (cb_Method cb),
        cb_CustomerPhone := json_string (cb_CustomerPhone cb),
        cb_CustomerEmail := json_string (cb_CustomerEmail cb),
        cb_CustomerName := json_string (cb_CustomerName cb),
        cb_PersonaName := json_string (cb_PersonaName cb),
        cb_Status := json_string (cb_Status cb),
        cb_Error := json_string (cb_Error cb),
        cb_GroupID := json_string (cb_GroupID cb)\<rparr>"

definition json_CompletionInfo :: "CompletionInfo \<Rightarrow> CompletionInfo" where
  "json_CompletionInfo info =
     info\<lparr>ci_AgentID := json_string (ci_AgentID info),
          ci_AgentName := json_string (ci_AgentName info),
          ci_Result := json_string (ci_Result info),
          ci_ProjectName := json_string (ci_ProjectName info),
          ci_Error := json_string (ci_Error info)\<rparr>"

definition json_CallbackGroup :: "CallbackGroup \<Rightarrow> CallbackGroup" where
  "json_CallbackGroup grp =
     grp\<lparr>grp_ID := json_string (grp_ID grp),
         grp_AgentIDs := map json_string (grp_AgentIDs grp),
         grp_Results := json_map json_CompletionInfo (grp_Results grp),
         grp_Method := json_string (grp_Method grp),
         grp_CustomerPhone := json_string (grp_CustomerPhone grp),
         grp_CustomerEmail := json_string (grp_CustomerEmail grp),
         grp_CustomerName := json_string (grp_CustomerName grp),
         grp_PersonaName := json_string (grp_PersonaName grp),
         grp_Status := json_string (grp_Status grp),
         grp_Error := json_string (grp_Error grp)\<rparr>"

definition json_document :: "persisted \<Rightarrow> persisted" where
  "json_document d =
     \<lparr>p_Callbacks = map_option (json_map json_Callback) (p_Callbacks d),
      p_Groups = map_option (json_map json_CallbackGroup) (p_Groups d),
      p_History = map_option (map json_Callback) (p_History d),
      p_GroupHistory = map_option (map json_CallbackGroup) (p_GroupHistory d)\<rparr>"

text \<open>Modelled from the library (\<open>encoding/json\<close>): \<open>json.MarshalIndent\<close> and
  \<open>json.Unmarshal\<close> on these documents.\<close>

definition go_json_Marshal :: "persisted \<Rightarrow> file_content option" where
  "go_json_Marshal d = Some (Document (json_document d))"

definition go_json_Unmarshal :: "file_content \<Rightarrow> persisted option" where
  "go_json_Unmarshal content = (case content of Document d \<Rightarrow> Some d | Garbage text \<Rightarrow> None)"

text \<open>Registries all of whose strings are valid UTF-8.\<close>

definition utf8_Callback :: "Callback \<Rightarrow> bool" where
  "utf8_Callback cb \<longleftrightarrow>
     utf8_ValidString (cb_ID cb) \<and> utf8_ValidString (cb_AgentID cb) \<and>
     utf8_ValidString (cb_AgentName cb) \<and> utf8_ValidString (cb_TaskSummary cb) \<and>
     utf8_ValidString (cb_ProjectName cb) \<and> utf8_ValidString (cb_Method cb) \<and>
     utf8_ValidString (cb_CustomerPhone cb) \<and> utf8_ValidString (cb_CustomerEmail cb) \<and>
     utf8_ValidString (cb_CustomerName cb) \<and> utf8_ValidString (cb_PersonaName cb) \<and>
     utf8_ValidString (cb_Status cb) \<and> utf8_ValidString (cb_Error cb) \<and>
     utf8_ValidString (cb_GroupID cb)"

definition utf8_CompletionInfo :: "CompletionInfo \<Rightarrow> bool" where
  "utf8_CompletionInfo info \<longleftrightarrow>
     utf8_ValidString (ci_AgentID info) \<and> utf8_ValidString (ci_AgentName info) \<and>
     utf8_ValidString (ci_Result info) \<and> utf8_ValidString (ci_ProjectName info) \<and>
     utf8_ValidString (ci_Error info)"

definition utf8_CallbackGroup :: "CallbackGroup \<Rightarrow> bool" where
  "utf8_CallbackGroup grp \<longleftrightarrow>
     utf8_ValidString (grp_ID grp) \<and> list_all utf8_ValidString (grp_AgentIDs grp) \<and>
     fmpred (\<lambda>agentID info. utf8_ValidString agentID \<and> utf8_CompletionInfo info)
       (grp_Results grp) \<and>
     utf8_ValidString (grp_Method grp) \<and> utf8_ValidString (grp_CustomerPhone grp) \<and>
     utf8_ValidString (grp_CustomerEmail grp) \<and> utf8_ValidString (grp_CustomerName grp) \<and>
     utf8_ValidString (grp_PersonaName grp) \<and> utf8_ValidString (grp_Status grp) \<and>
     utf8_ValidString (grp_Error grp)"

definition utf8_Registry :: "Registry \<Rightarrow> bool" where
  "utf8_Registry r \<longleftrightarrow>
     fmpred (\<lambda>agentID cb. utf8_ValidString agentID \<and> utf8_Callback cb) (callbacks r) \<and>
     fmpred (\<lambda>groupID grp. utf8_ValidString groupID \<and> utf8_CallbackGroup grp) (groups r) \<and>
     list_all utf8_Callback (history r) \<and>
     list_all utf8_CallbackGroup (groupHistory r)"

subsection \<open>Concrete inputs\<close>

definition ex_vapi :: vapi_Client where
  "ex_vapi = \<lparr>vapi_apiKey = ''key'', vapi_phoneID = ''phone-1'', vapi_assistantID = ''asst-1''\<rparr>"

definition ex_email :: email_Client where
  "ex_email = \<lparr>email_host = ''smtp.example.com'', email_port = 587, email_user = '''',
               email_password = '''', email_from = ''tony@example.com''\<rparr>"

definition ex_env :: env where
  "ex_env = \<lparr>time_Now = (\<lambda>n. 1700000000 + int n),
             vapi_Call = None,
             email_SendTaskComplete = None,
             email_SendBatchComplete = None,
             range_order = (\<lambda>n. [''a'', ''b'', ''c'', ''z'']),
             os_MkdirAll_ok = True,
             os_WriteFile_ok = True,
             os_WriteFile_residue = None,
             os_ReadFile_ok = True,
             json_Marshal = (\<lambda>d. None),
             json_Unmarshal = (\<lambda>s. None),
             filepath_Join = concat\<rparr>"

text \<open>An empty registry, with both clients or with none.\<close>

definition ex_registry :: "vapi_Client option \<Rightarrow> email_Client option \<Rightarrow> Registry" where
  "ex_registry vc ec =
     \<lparr>callbacks = fmempty, groups = fmempty, history = [], groupHistory = [],
      vapiClient = vc, emailClient = ec, getServerURL = None, agentValidator = None,
      baseDir = ''/srv'', personaName = ''Tony'', personaEmail = ''tony@example.com''\<rparr>"

definition ex_world :: World where
  "ex_world = \<lparr>reg = ex_registry (Some ex_vapi) (Some ex_email), files = Map.empty, outbox = []\<rparr>"

definition ex_world_noclients :: World where
  "ex_world_noclients = \<lparr>reg = ex_registry None None, files = Map.empty, outbox = []\<rparr>"

definition ex_callback :: "string \<Rightarrow> string \<Rightarrow> string \<Rightarrow> Callback" where
  "ex_callback agentID method groupID =
     \<lparr>cb_ID = ''cb-'' @ agentID @ ''-1'',
      cb_AgentID = agentID,
      cb_AgentName = ''Gary'',
      cb_TaskSummary = ''build the site'',
      cb_ProjectName = ''site'',
      cb_Method = method,
      cb_CustomerPhone = ''+15550001111'',
      cb_CustomerEmail = ''x@y.com'',
      cb_CustomerName = ''Pat'',
      cb_PersonaName = ''Tony'',
      cb_RequestedAt = TimeAt 1,
      cb_CompletedAt = TimeZero,
      cb_Status = ''pending'',
      cb_Error = '''',
      cb_GroupID = groupID\<rparr>"

definition ex_info :: "string \<Rightarrow> CompletionInfo" where
  "ex_info agentID =
     \<lparr>ci_AgentID = agentID, ci_AgentName = ''Gary'', ci_Result = ''done'',
      ci_ProjectName = ''site'', ci_Error = ''''\<rparr>"

definition ex_agent :: "string \<Rightarrow> AgentInfo" where
  "ex_agent agentID =
     \<lparr>ai_ID = agentID, ai_Name = ''Gary'', ai_TaskSummary = ''build the site'',
      ai_ProjectName = ''site''\<rparr>"

text \<open>A registry holding one pending callback.\<close>

definition ex_pending :: "Callback \<Rightarrow> World" where
  "ex_pending cb =
     ex_world\<lparr>reg := (reg ex_world)\<lparr>callbacks := fmupd (cb_AgentID cb) cb fmempty\<rparr>\<rparr>"

text \<open>Registering a single email callback for agent \<open>old\<close> and completing it, \<open>n\<close> times
  over; and the registry that a hundred such rounds on the empty registry leave behind,
  after one more callback was registered for agent \<open>z\<close>.\<close>

fun ex_rounds :: "nat \<Rightarrow> World \<Rightarrow> World" where
  "ex_rounds 0 w = w"
| "ex_rounds (Suc n) w =
     ex_rounds n
       (OnAgentComplete ex_env (ex_info ''old'')
          (snd (Register ex_env ''old'' ''Gary'' ''build the site'' ''site'' ''email'' ''''
                  ''x@y.com'' ''Pat'' w)))"

definition ex_full_history :: World where
  "ex_full_history =
     snd (Register ex_env ''z'' ''Gary'' ''build the site'' ''site'' ''email'' '''' ''x@y.com''
            ''Pat'' (ex_rounds 100 ex_world))"

text \<open>Environments in which the call, the email, or both fail.\<close>

definition ex_env_failing :: "string option \<Rightarrow> string option \<Rightarrow> env" where
  "ex_env_failing callErr emailErr =
     ex_env\<lparr>vapi_Call := callErr, email_SendTaskComplete := emailErr,
            email_SendBatchComplete := emailErr\<rparr>"

text \<open>A batch of the agents \<open>a\<close> and \<open>b\<close> with the given method, waiting for \<open>a\<close> only.\<close>

definition ex_group :: "string \<Rightarrow> CallbackGroup" where
  "ex_group method =
     \<lparr>grp_ID = ''grp-1'',
      grp_AgentIDs = [''a'', ''b''],
      grp_Results = fmupd ''b'' (ex_info ''b'') fmempty,
      grp_Method = method,
      grp_CustomerPhone = ''+15550001111'',
      grp_CustomerEmail = ''x@y.com'',
      grp_CustomerName = ''Pat'',
      grp_PersonaName = ''Tony'',
      grp_RequestedAt = TimeAt 1,
      grp_CompletedAt = TimeZero,
      grp_Status = ''pending'',
      grp_Error = ''''\<rparr>"

definition ex_batch :: "string \<Rightarrow> World" where
  "ex_batch method =
     ex_world\<lparr>reg := (reg ex_world)
       \<lparr>callbacks := fmupd ''a'' (ex_callback ''a'' method ''grp-1'')
                        (fmupd ''b'' (ex_callback ''b'' method ''grp-1'') fmempty),
        groups := fmupd ''grp-1'' (ex_group method) fmempty\<rparr>\<rparr>"

text \<open>The registry after \<open>RegisterBatch\<close> of the agents \<open>a\<close>, \<open>b\<close>, \<open>c\<close> for an email.\<close>

definition ex_registered3 :: World where
  "ex_registered3 =
     snd (RegisterBatch ex_env [ex_agent ''a'', ex_agent ''b'', ex_agent ''c'']
            ''email'' '''' ''x@y.com'' ''Pat'' ex_world)"

text \<open>An environment in which every \<open>range\<close> yields the given keys, and a registry with
  one pending callback and an agent validator that knows no agent.\<close>

definition ex_env_range :: "string list \<Rightarrow> env" where
  "ex_env_range order = ex_env\<lparr>range_order := (\<lambda>n. order)\<rparr>"

definition ex_unknown_agent :: "Callback \<Rightarrow> World" where
  "ex_unknown_agent cb =
     ex_world\<lparr>reg := (reg ex_world)
       \<lparr>callbacks := fmupd (cb_AgentID cb) cb fmempty,
        agentValidator := Some (\<lambda>agentID. False)\<rparr>\<rparr>"

text \<open>The same registry after a first completion event for \<open>a\<close>, and after a second one
  with another result text.\<close>

definition ex_completed_once :: World where
  "ex_completed_once = OnAgentComplete ex_env (ex_info ''a'') ex_registered3"

definition ex_completed_twice :: World where
  "ex_completed_twice =
     OnAgentComplete ex_env ((ex_info ''a'')\<lparr>ci_Result := ''again''\<rparr>) ex_completed_once"

text \<open>The group that this \<open>RegisterBatch\<close> returns, and the completion events of its three
  members in the order \<open>c\<close>, \<open>a\<close>, \<open>b\<close>.\<close>

definition ex_group3 :: CallbackGroup where
  "ex_group3 =
     \<lparr>grp_ID = batchGroupID ex_env,
      grp_AgentIDs = [''a'', ''b'', ''c''],
      grp_Results = fmempty,
      grp_Method = ''email'',
      grp_CustomerPhone = '''',
      grp_CustomerEmail = ''x@y.com'',
      grp_CustomerName = ''Pat'',
      grp_PersonaName = ''Tony'',
      grp_RequestedAt = TimeAt (time_Now ex_env 7),
      grp_CompletedAt = TimeZero,
      grp_Status = ''pending'',
      grp_Error = ''''\<rparr>"

definition ex_events :: "(env \<times> CompletionInfo) list" where
  "ex_events = [(ex_env, ex_info ''c''), (ex_env, ex_info ''a''), (ex_env, ex_info ''b'')]"

text \<open>A later moment, and operations that follow the registration of an empty batch.\<close>

definition ex_env_later :: env where
  "ex_env_later = ex_env\<lparr>time_Now := (\<lambda>n. 1700000009 + int n)\<rparr>"

definition ex_operations :: "(env \<times> operation) list" where
  "ex_operations =
     [(ex_env_later, OpRegisterBatch [ex_agent ''a''] ''email'' '''' ''x@y.com'' ''Pat''),
      (ex_env_later, OpOnAgentComplete (ex_info ''a'')),
      (ex_env_later, OpRegister ''b'' ''Gary'' ''build the site'' ''site'' ''email'' '''' ''x@y.com'' ''Pat''),
      (ex_env_later, OpCancel ''b''),
      (ex_env_later, OpSetAgentValidator (Some (\<lambda>agentID. False)))]"

text \<open>An environment whose JSON functions are those of \<open>encoding/json\<close>; the registry
  after a callback was registered whose task summary is the single byte 0xFF; and the
  registry that another process constructs over the same base directory, the files being
  all it shares with the first.\<close>

definition ex_env_go :: env where
  "ex_env_go = ex_env\<lparr>json_Marshal := go_json_Marshal, json_Unmarshal := go_json_Unmarshal\<rparr>"

definition ex_registered_bad :: World where
  "ex_registered_bad =
     snd (Register ex_env_go ''a'' ''Gary'' [CHR 0xFF] ''site'' ''email'' '''' ''x@y.com'' ''Pat''
            ex_world)"

definition ex_reloaded_bad :: World where
  "ex_reloaded_bad =
     NewRegistry ex_env_go (Some ex_vapi) (Some ex_email) ''/srv'' ''Tony'' ''tony@example.com''
       (ex_world_noclients\<lparr>files := files ex_registered_bad\<rparr>)"

text \<open>The registry after \<open>RegisterBatch\<close> of a batch that lists the agent \<open>a\<close> twice, the
  completion events of its two listed members, and the registry after \<open>RegisterBatch\<close> of
  no agent at all.\<close>

definition ex_registered_dup :: World where
  "ex_registered_dup =
     snd (RegisterBatch ex_env [ex_agent ''a'', ex_agent ''a''] ''email'' '''' ''x@y.com'' ''Pat''
            ex_world)"

definition ex_events_dup :: "(env \<times> CompletionInfo) list" where
  "ex_events_dup = [(ex_env, ex_info ''a''), (ex_env, ex_info ''a'')]"

definition ex_registered_none :: World where
  "ex_registered_none =
     snd (RegisterBatch ex_env [] ''email'' '''' ''x@y.com'' ''Pat'' ex_world)"

section \<open>Properties\<close>

subsection \<open>What persistence and dispatch leave alone\<close>

lemma persist_reg [simp]: "reg (persist e w) = reg w"
  by (simp add: persist_def Let_def split: option.splits)

lemma persist_outbox [simp]: "outbox (persist e w) = outbox w"
  by (simp add: persist_def Let_def split: option.splits)

lemma executeCall_fst:
  "fst (executeCall e cb info w) =
     (if CanCall (reg w) then vapi_Call e else Some ''VAPI client not configured'')"
  by (simp add: executeCall_def Let_def)

lemma executeCall_reg [simp]: "reg (snd (executeCall e cb info w)) = reg w"
  by (simp add: executeCall_def Let_def)

lemma executeCall_files [simp]: "files (snd (executeCall e cb info w)) = files w"
  by (simp add: executeCall_def Let_def)

lemma executeEmail_fst:
  "fst (executeEmail e cb info w) =
     (if CanEmail (reg w) then email_SendTaskComplete e else Some ''email client not configured'')"
  by (simp add: executeEmail_def Let_def)

lemma executeEmail_reg [simp]: "reg (snd (executeEmail e cb info w)) = reg w"
  by (simp add: executeEmail_def Let_def)

lemma executeEmail_files [simp]: "files (snd (executeEmail e cb info w)) = files w"
  by (simp add: executeEmail_def Let_def)

lemma executeBatchEmail_fst:
  "fst (executeBatchEmail e grp w) =
     (if CanEmail (reg w) then email_SendBatchComplete e else Some ''email client not configured'')"
  by (simp add: executeBatchEmail_def Let_def)

lemma executeBatchEmail_reg [simp]: "reg (snd (executeBatchEmail e grp w)) = reg w"
  by (simp add: executeBatchEmail_def Let_def)

lemma executeBatchEmail_files [simp]: "files (snd (executeBatchEmail e grp w)) = files w"
  by (simp add: executeBatchEmail_def Let_def)

lemma executeBatchCall_fst [simp]:
  "fst (executeBatchCall e grp w) = Some ''batch calls not yet implemented''"
  by (simp add: executeBatchCall_def)

lemma executeBatchCall_snd [simp]: "snd (executeBatchCall e grp w) = w"
  by (simp add: executeBatchCall_def)

lemma singleDispatch_reg [simp]: "reg (snd (singleDispatch e cb info w)) = reg w"
  by (simp add: singleDispatch_def Let_def split_def)

lemma singleDispatch_files [simp]: "files (snd (singleDispatch e cb info w)) = files w"
  by (simp add: singleDispatch_def Let_def split_def)

lemma groupDispatch_reg [simp]: "reg (snd (groupDispatch e grp w)) = reg w"
  by (simp add: groupDispatch_def Let_def split_def)

lemma groupDispatch_files [simp]: "files (snd (groupDispatch e grp w)) = files w"
  by (simp add: groupDispatch_def Let_def split_def)

subsection \<open>Single dispatch\<close>

text \<open>The callback that \<open>executeCallback\<close> retires.\<close>

lemma executeCallback_reg:
  "reg (executeCallback e cb0 info w) =
     (let cb = cb0\<lparr>cb_CompletedAt := TimeAt (time_Now e 0)\<rparr>;
          cb' = (case fst (singleDispatch e cb info w) of
                   Some msg \<Rightarrow> cb\<lparr>cb_Status := ''failed'', cb_Error := msg\<rparr>
                 | None \<Rightarrow> cb\<lparr>cb_Status := ''completed''\<rparr>);
          h = history (reg w) @ [cb']
      in (reg w)\<lparr>callbacks := fmdrop (cb_AgentID cb0) (callbacks (reg w)),
                  history := (if length h > 100 then drop 1 h else h)\<rparr>)"
  by (simp add: executeCallback_def Let_def split_def)

lemma executeCallback_outbox:
  "outbox (executeCallback e cb0 info w) =
     outbox (snd (singleDispatch e (cb0\<lparr>cb_CompletedAt := TimeAt (time_Now e 0)\<rparr>) info w))"
  by (simp add: executeCallback_def Let_def split_def)

lemma executeCallback_files [simp]: "files (executeCallback e cb0 info w) = files w"
  by (simp add: executeCallback_def Let_def split_def)

lemma last_trim_one:
  "0 < n \<Longrightarrow> last (if length (h @ [x]) > n then drop 1 (h @ [x]) else h @ [x]) = x"
  by (cases h) auto

lemma executeCallback_history:
  "history (reg (executeCallback e cb0 info w)) =
     (let cb = cb0\<lparr>cb_CompletedAt := TimeAt (time_Now e 0)\<rparr>;
          cb' = (case fst (singleDispatch e cb info w) of
                   Some msg \<Rightarrow> cb\<lparr>cb_Status := ''failed'', cb_Error := msg\<rparr>
                 | None \<Rightarrow> cb\<lparr>cb_Status := ''completed''\<rparr>);
          h = history (reg w) @ [cb']
      in if length h > 100 then drop 1 h else h)"
  by (simp add: executeCallback_reg Let_def)

lemma executeCallback_last:
  "last (history (reg (executeCallback e cb0 info w))) =
     (let cb = cb0\<lparr>cb_CompletedAt := TimeAt (time_Now e 0)\<rparr>
      in case fst (singleDispatch e cb info w) of
           Some msg \<Rightarrow> cb\<lparr>cb_Status := ''failed'', cb_Error := msg\<rparr>
         | None \<Rightarrow> cb\<lparr>cb_Status := ''completed''\<rparr>)"
  unfolding executeCallback_history Let_def by (rule last_trim_one) simp

lemma executeCallback_removed:
  "fmlookup (callbacks (reg (executeCallback e cb0 info w))) (cb_AgentID cb0) = None"
  by (simp add: executeCallback_reg Let_def)

lemma executeCallback_history_bound:
  "length (history (reg w)) \<le> 100 \<Longrightarrow> length (history (reg (executeCallback e cb0 info w))) \<le> 100"
  by (auto simp add: executeCallback_reg Let_def)

lemma executeCallback_history_length:
  "length (history (reg (executeCallback e cb0 info w))) =
     (if length (history (reg w)) \<ge> 100 then length (history (reg w))
      else length (history (reg w)) + 1)"
  by (auto simp add: executeCallback_reg Let_def)

lemma OnAgentComplete_single:
  assumes "fmlookup (callbacks (reg w)) (ci_AgentID info) = Some cb" and "cb_GroupID cb = ''''"
  shows "OnAgentComplete e info w = persist e (executeCallback e cb info w)"
  using assms by (simp add: OnAgentComplete_def)

lemma OnAgentComplete_unregistered:
  "fmlookup (callbacks (reg w)) (ci_AgentID info) = None \<Longrightarrow> OnAgentComplete e info w = w"
  by (simp add: OnAgentComplete_def)

lemma singleDispatch_both_fst:
  "cb_Method cb = ''both'' \<Longrightarrow>
   fst (singleDispatch e cb info w) =
     bothErrors (if CanCall (reg w) then vapi_Call e else Some ''VAPI client not configured'')
                (if CanEmail (reg w) then email_SendTaskComplete e
                 else Some ''email client not configured'')"
  by (simp add: singleDispatch_def Let_def split_def executeCall_fst executeEmail_fst)

lemma singleDispatch_both_outbox:
  "cb_Method cb = ''both'' \<Longrightarrow>
   outbox (snd (singleDispatch e cb info w)) =
     outbox w @
     (if CanCall (reg w)
      then [VapiCall (cb_CustomerPhone cb) (cb_CustomerName cb) (callContext cb info)] else []) @
     (if CanEmail (reg w) then [SendTaskComplete (emailContext (reg w) cb info)] else [])"
  by (simp add: singleDispatch_def Let_def split_def executeCall_def executeEmail_def)

subsection \<open>Group dispatch\<close>

lemma fmdrop_set_absent: "fmlookup m a = None \<Longrightarrow> fmdrop a (fmdrop_set S m) = fmdrop_set S m"
  by (rule fmap_ext) auto

lemma retireMembers_fst:
  "fst (retireMembers grp ids (cbs, h)) = fmdrop_set (set ids) cbs"
proof (induction ids arbitrary: cbs h)
  case Nil
  show ?case by simp
next
  case (Cons a ids)
  show ?case
  proof (cases "fmlookup cbs a")
    case None
    then show ?thesis using Cons.IH [of cbs h] by (simp add: fmdrop_set_absent)
  next
    case (Some cb)
    then show ?thesis
      using Cons.IH [of "fmdrop a cbs"] by simp
  qed
qed

lemma retireMembers_snd:
  "\<exists>new. snd (retireMembers grp ids (cbs, h)) = h @ new \<and>
         (\<forall>x. x \<in> set new \<longleftrightarrow>
              (\<exists>a \<in> set ids. \<exists>cb. fmlookup cbs a = Some cb \<and>
                 x = cb\<lparr>cb_Status := grp_Status grp, cb_CompletedAt := grp_CompletedAt grp\<rparr>)) \<and>
         length new \<le> length ids"
proof (induction ids arbitrary: cbs h)
  case Nil
  show ?case by simp
next
  case (Cons a ids)
  let ?mark = "\<lambda>cb. cb\<lparr>cb_Status := grp_Status grp, cb_CompletedAt := grp_CompletedAt grp\<rparr>"
  show ?case
  proof (cases "fmlookup cbs a")
    case None
    from Cons.IH [of cbs h] obtain new where
      r: "snd (retireMembers grp ids (cbs, h)) = h @ new"
      and s: "\<forall>x. x \<in> set new \<longleftrightarrow> (\<exists>b \<in> set ids. \<exists>cb. fmlookup cbs b = Some cb \<and> x = ?mark cb)"
      and l: "length new \<le> length ids" by blast
    have r': "snd (retireMembers grp (a # ids) (cbs, h)) = h @ new"
      using None r by simp
    have s': "\<forall>x. x \<in> set new \<longleftrightarrow>
                (\<exists>b \<in> set (a # ids). \<exists>cb. fmlookup cbs b = Some cb \<and> x = ?mark cb)"
      using None s by auto
    have l': "length new \<le> length (a # ids)" using l by simp
    from r' s' l' show ?thesis by blast
  next
    case (Some cb)
    from Cons.IH [of "fmdrop a cbs" "h @ [?mark cb]"] obtain new where
      r: "snd (retireMembers grp ids (fmdrop a cbs, h @ [?mark cb])) = (h @ [?mark cb]) @ new"
      and s: "\<forall>x. x \<in> set new \<longleftrightarrow>
                (\<exists>b \<in> set ids. \<exists>c. fmlookup (fmdrop a cbs) b = Some c \<and> x = ?mark c)"
      and l: "length new \<le> length ids" by blast
    have r': "snd (retireMembers grp (a # ids) (cbs, h)) = h @ (?mark cb # new)"
      using Some r by simp
    have s': "\<forall>x. x \<in> set (?mark cb # new) \<longleftrightarrow>
                (\<exists>b \<in> set (a # ids). \<exists>c. fmlookup cbs b = Some c \<and> x = ?mark c)"
    proof (intro allI iffI)
      fix x assume "x \<in> set (?mark cb # new)"
      then consider "x = ?mark cb" | "x \<in> set new" by auto
      then show "\<exists>b \<in> set (a # ids). \<exists>c. fmlookup cbs b = Some c \<and> x = ?mark c"
      proof cases
        case 1
        then show ?thesis using Some by auto
      next
        case 2
        then obtain b c where "b \<in> set ids" "fmlookup (fmdrop a cbs) b = Some c" "x = ?mark c"
          using s by blast
        moreover then have "fmlookup cbs b = Some c" by (simp split: if_splits)
        ultimately show ?thesis by auto
      qed
    next
      fix x assume "\<exists>b \<in> set (a # ids). \<exists>c. fmlookup cbs b = Some c \<and> x = ?mark c"
      then obtain b c where b: "b \<in> set (a # ids)" "fmlookup cbs b = Some c" "x = ?mark c"
        by blast
      show "x \<in> set (?mark cb # new)"
      proof (cases "b = a")
        case True
        then show ?thesis using b Some by simp
      next
        case False
        then have "b \<in> set ids" "fmlookup (fmdrop a cbs) b = Some c" using b by auto
        then have "x \<in> set new" using s b(3) by blast
        then show ?thesis by simp
      qed
    qed
    have l': "length (?mark cb # new) \<le> length (a # ids)" using l by simp
    from r' s' l' show ?thesis by blast
  qed
qed

lemma executeGroupCallback_reg:
  "reg (executeGroupCallback e grp0 w) =
     (let grp = grp0\<lparr>grp_CompletedAt := TimeAt (time_Now e 0)\<rparr>;
          grp' = (case fst (groupDispatch e grp w) of
                    Some msg \<Rightarrow> grp\<lparr>grp_Status := ''failed'', grp_Error := msg\<rparr>
                  | None \<Rightarrow> grp\<lparr>grp_Status := ''completed''\<rparr>);
          r = retireMembers grp' (grp_AgentIDs grp0) (callbacks (reg w), history (reg w));
          gh = groupHistory (reg w) @ [grp']
      in (reg w)
            \<lparr>callbacks := fst r,
             history := (if length (snd r) > 100 then drop (length (snd r) - 100) (snd r) else snd r),
             groups := fmdrop (grp_ID grp0) (groups (reg w)),
             groupHistory := (if length gh > 50 then drop 1 gh else gh)\<rparr>)"
  by (simp add: executeGroupCallback_def Let_def split_def split: option.splits)

lemma executeGroupCallback_outbox:
  "outbox (executeGroupCallback e grp0 w) =
     outbox (snd (groupDispatch e (grp0\<lparr>grp_CompletedAt := TimeAt (time_Now e 0)\<rparr>) w))"
  by (simp add: executeGroupCallback_def Let_def split_def)

lemma groupDispatch_call_fails:
  "grp_Method grp = ''call'' \<or> grp_Method grp = ''both'' \<Longrightarrow>
   \<exists>msg. fst (groupDispatch e grp w) = Some msg"
  by (auto simp add: groupDispatch_def Let_def split_def bothErrors_def split: option.splits)

lemma OnAgentComplete_group:
  assumes "fmlookup (callbacks (reg w)) (ci_AgentID info) = Some cb"
    and "cb_GroupID cb \<noteq> ''''"
    and "fmlookup (groups (reg w)) (cb_GroupID cb) = Some grp0"
  shows "OnAgentComplete e info w =
     (let grp = grp0\<lparr>grp_Results := fmupd (ci_AgentID info) info (grp_Results grp0)\<rparr>;
          w1 = w\<lparr>reg := (reg w)\<lparr>groups := fmupd (cb_GroupID cb) grp (groups (reg w))\<rparr>\<rparr>
      in persist e
           (if fcard (fmdom (grp_Results grp)) = length (grp_AgentIDs grp)
            then executeGroupCallback e grp w1 else w1))"
  using assms by (simp add: OnAgentComplete_def)
lemma last_trim50: "last (if length (gh @ [x]) > 50 then drop 1 (gh @ [x]) else gh @ [x]) = x"
  by (rule last_trim_one) simp

lemma executeGroupCallback_groupHistory:
  "groupHistory (reg (executeGroupCallback e grp0 w)) =
     (let grp = grp0\<lparr>grp_CompletedAt := TimeAt (time_Now e 0)\<rparr>;
          grp' = (case fst (groupDispatch e grp w) of
                    Some msg \<Rightarrow> grp\<lparr>grp_Status := ''failed'', grp_Error := msg\<rparr>
                  | None \<Rightarrow> grp\<lparr>grp_Status := ''completed''\<rparr>);
          gh = groupHistory (reg w) @ [grp']
      in if length gh > 50 then drop 1 gh else gh)"
  by (simp add: executeGroupCallback_reg Let_def)

lemma executeGroupCallback_last:
  "last (groupHistory (reg (executeGroupCallback e grp0 w))) =
     (let grp = grp0\<lparr>grp_CompletedAt := TimeAt (time_Now e 0)\<rparr>
      in case fst (groupDispatch e grp w) of
           Some msg \<Rightarrow> grp\<lparr>grp_Status := ''failed'', grp_Error := msg\<rparr>
         | None \<Rightarrow> grp\<lparr>grp_Status := ''completed''\<rparr>)"
  unfolding executeGroupCallback_groupHistory Let_def by (rule last_trim50)

lemma executeGroupCallback_groups:
  "groups (reg (executeGroupCallback e grp0 w)) = fmdrop (grp_ID grp0) (groups (reg w))"
  by (simp add: executeGroupCallback_reg Let_def)

lemma executeGroupCallback_callbacks:
  "callbacks (reg (executeGroupCallback e grp0 w)) =
     fmdrop_set (set (grp_AgentIDs grp0)) (callbacks (reg w))"
  by (simp add: executeGroupCallback_reg Let_def retireMembers_fst)

lemma executeGroupCallback_history:
  "\<exists>new. history (reg (executeGroupCallback e grp0 w)) =
           (let h = history (reg w) @ new
            in if length h > 100 then drop (length h - 100) h else h) \<and>
         (\<forall>x. x \<in> set new \<longleftrightarrow>
            (\<exists>a \<in> set (grp_AgentIDs grp0). \<exists>cb. fmlookup (callbacks (reg w)) a = Some cb \<and>
               x = cb\<lparr>cb_Status := grp_Status (last (groupHistory (reg (executeGroupCallback e grp0 w)))),
                       cb_CompletedAt := TimeAt (time_Now e 0)\<rparr>)) \<and>
         length new \<le> length (grp_AgentIDs grp0)"
proof -
  define grp' where "grp' = last (groupHistory (reg (executeGroupCallback e grp0 w)))"
  have g: "grp' = (case fst (groupDispatch e (grp0\<lparr>grp_CompletedAt := TimeAt (time_Now e 0)\<rparr>) w) of
           Some msg \<Rightarrow> grp0\<lparr>grp_CompletedAt := TimeAt (time_Now e 0), grp_Status := ''failed'', grp_Error := msg\<rparr>
         | None \<Rightarrow> grp0\<lparr>grp_CompletedAt := TimeAt (time_Now e 0), grp_Status := ''completed''\<rparr>)"
    by (simp add: grp'_def executeGroupCallback_last Let_def)
  have c: "grp_CompletedAt grp' = TimeAt (time_Now e 0)"
    by (simp add: g split: option.splits)
  obtain new where
    r: "snd (retireMembers grp' (grp_AgentIDs grp0) (callbacks (reg w), history (reg w))) =
          history (reg w) @ new"
    and s: "\<forall>x. x \<in> set new \<longleftrightarrow>
              (\<exists>a \<in> set (grp_AgentIDs grp0). \<exists>cb. fmlookup (callbacks (reg w)) a = Some cb \<and>
                 x = cb\<lparr>cb_Status := grp_Status grp', cb_CompletedAt := grp_CompletedAt grp'\<rparr>)"
    and l: "length new \<le> length (grp_AgentIDs grp0)"
    using retireMembers_snd [of grp' "grp_AgentIDs grp0" "callbacks (reg w)" "history (reg w)"]
    by blast
  have h: "history (reg (executeGroupCallback e grp0 w)) =
             (let h = history (reg w) @ new
              in if length h > 100 then drop (length h - 100) h else h)"
    using r by (simp add: executeGroupCallback_reg Let_def g)
  have s': "\<forall>x. x \<in> set new \<longleftrightarrow>
              (\<exists>a \<in> set (grp_AgentIDs grp0). \<exists>cb. fmlookup (callbacks (reg w)) a = Some cb \<and>
                 x = cb\<lparr>cb_Status := grp_Status grp', cb_CompletedAt := TimeAt (time_Now e 0)\<rparr>)"
    using s unfolding c .
  show ?thesis
    using h s' l unfolding grp'_def by blast
qed
subsection \<open>Orphan cleanup\<close>

lemma orphanLoop_callbacks:
  "callbacks (orphanLoop valid order r) =
     fmfilter (\<lambda>k. k \<notin> set order \<or> valid k) (callbacks r)"
proof (induction order arbitrary: r)
  case Nil
  show ?case by simp
next
  case (Cons x xs)
  show ?case
  proof (cases "fmlookup (callbacks r) x")
    case None
    have "fmfilter (\<lambda>k. k \<notin> set xs \<or> valid k) (callbacks r) =
          fmfilter (\<lambda>k. k \<notin> set (x # xs) \<or> valid k) (callbacks r)"
      using None by (intro fmap_ext) auto
    then show ?thesis using None Cons.IH [of r] by simp
  next
    case (Some cb)
    show ?thesis
    proof (cases "valid x")
      case True
      have "fmfilter (\<lambda>k. k \<notin> set xs \<or> valid k) (callbacks r) =
            fmfilter (\<lambda>k. k \<notin> set (x # xs) \<or> valid k) (callbacks r)"
        using True by (intro fmap_ext) auto
      then show ?thesis using Some True Cons.IH [of r] by simp
    next
      case False
      let ?r = "r\<lparr>history := history r @ [cb\<lparr>cb_Status := ''orphaned''\<rparr>],
                    callbacks := fmdrop x (callbacks r)\<rparr>"
      have "fmfilter (\<lambda>k. k \<notin> set xs \<or> valid k) (callbacks ?r) =
            fmfilter (\<lambda>k. k \<notin> set (x # xs) \<or> valid k) (callbacks r)"
        using False by (intro fmap_ext) auto
      then show ?thesis using Some False Cons.IH [of ?r] by simp
    qed
  qed
qed

lemma orphanLoop_history_grows:
  "\<exists>new. history (orphanLoop valid order r) = history r @ new"
proof (induction order arbitrary: r)
  case Nil
  show ?case by simp
next
  case (Cons x xs)
  show ?case
  proof (cases "fmlookup (callbacks r) x")
    case None
    then show ?thesis using Cons.IH [of r] by simp
  next
    case (Some cb)
    show ?thesis
    proof (cases "valid x")
      case True
      then show ?thesis using Some Cons.IH [of r] by simp
    next
      case False
      let ?r = "r\<lparr>history := history r @ [cb\<lparr>cb_Status := ''orphaned''\<rparr>],
                    callbacks := fmdrop x (callbacks r)\<rparr>"
      from Cons.IH [of ?r] obtain new where
        "history (orphanLoop valid xs ?r) = history ?r @ new" by blast
      then have "history (orphanLoop valid (x # xs) r) =
                   history r @ (cb\<lparr>cb_Status := ''orphaned''\<rparr> # new)"
        using Some False by simp
      then show ?thesis by blast
    qed
  qed
qed

lemma orphanLoop_retires:
  assumes "fmlookup (callbacks r) a = Some cb" and "a \<in> set order" and "\<not> valid a"
  shows "cb\<lparr>cb_Status := ''orphaned''\<rparr> \<in> set (history (orphanLoop valid order r))"
  using assms
proof (induction order arbitrary: r)
  case Nil
  then show ?case by simp
next
  case (Cons x xs)
  show ?case
  proof (cases "x = a")
    case True
    let ?r = "r\<lparr>history := history r @ [cb\<lparr>cb_Status := ''orphaned''\<rparr>],
                  callbacks := fmdrop a (callbacks r)\<rparr>"
    obtain new where "history (orphanLoop valid xs ?r) = history ?r @ new"
      using orphanLoop_history_grows by blast
    then show ?thesis using True Cons.prems by simp
  next
    case False
    then have a: "a \<in> set xs" using Cons.prems by simp
    show ?thesis
    proof (cases "fmlookup (callbacks r) x")
      case None
      then show ?thesis using Cons.IH [of r] Cons.prems a by simp
    next
      case (Some c)
      show ?thesis
      proof (cases "valid x")
        case True
        then show ?thesis using Some Cons.IH [of r] Cons.prems a by simp
      next
        case v: False
        let ?r = "r\<lparr>history := history r @ [c\<lparr>cb_Status := ''orphaned''\<rparr>],
                      callbacks := fmdrop x (callbacks r)\<rparr>"
        have "fmlookup (callbacks ?r) a = Some cb"
          using False Cons.prems by simp
        then have "cb\<lparr>cb_Status := ''orphaned''\<rparr> \<in> set (history (orphanLoop valid xs ?r))"
          using Cons.IH [of ?r] a Cons.prems by blast
        then show ?thesis using Some v by simp
      qed
    qed
  qed
qed

lemma orphanLoop_others:
  "groups (orphanLoop valid order r) = groups r \<and>
   groupHistory (orphanLoop valid order r) = groupHistory r \<and>
   vapiClient (orphanLoop valid order r) = vapiClient r \<and>
   emailClient (orphanLoop valid order r) = emailClient r \<and>
   agentValidator (orphanLoop valid order r) = agentValidator r \<and>
   getServerURL (orphanLoop valid order r) = getServerURL r \<and>
   baseDir (orphanLoop valid order r) = baseDir r"
  by (induction order arbitrary: r) (auto split: option.splits)

lemma range_of_mem:
  "range_of order m \<Longrightarrow> fmlookup m a = Some v \<Longrightarrow> a \<in> set order"
  by (metis fmdomI fset_of_list.rep_eq range_of_def)

lemma cleanupOrphaned_reg:
  "agentValidator (reg w) = Some valid \<Longrightarrow>
   reg (cleanupOrphaned e w) = orphanLoop valid (range_order e 0) (reg w)"
  by (simp add: cleanupOrphaned_def)

subsection \<open>Batches\<close>

lemma completeAll_append:
  "completeAll (xs @ ys) w = completeAll ys (completeAll xs w)"
  by (induction xs arbitrary: w) auto

lemma registerMembers_other:
  "a \<notin> ai_ID ` set agents \<Longrightarrow> fmlookup (registerMembers mk i agents cbs) a = fmlookup cbs a"
  by (induction agents arbitrary: i cbs) auto

lemma registerMembers_member:
  "a \<in> ai_ID ` set agents \<Longrightarrow>
   \<exists>j ag. ai_ID ag = a \<and> fmlookup (registerMembers mk i agents cbs) a = Some (mk j ag)"
proof (induction agents arbitrary: i cbs)
  case Nil
  then show ?case by simp
next
  case (Cons agent agents)
  show ?case
  proof (cases "a \<in> ai_ID ` set agents")
    case True
    then show ?thesis using Cons.IH by simp
  next
    case False
    then have "ai_ID agent = a" using Cons.prems by auto
    then show ?thesis using False by (auto simp add: registerMembers_other)
  qed
qed

lemma RegisterBatch_waiting:
  assumes "RegisterBatch e agents method phone emailAddr cn w = (Inr grp, w0)"
  shows "waiting (grp_ID grp) (map ai_ID agents) {} w0 w0"
    and "fmlookup (groups (reg w0)) (grp_ID grp) = Some grp"
    and "grp_Method grp = method"
    and "emailClient (reg w0) = emailClient (reg w)"
    and "grp_ID grp = batchGroupID e"
proof -
  let ?mk = "batchCallback e (reg w) (batchGroupID e) method phone emailAddr cn"
  have ok: "\<not> ((method = ''call'' \<or> method = ''both'') \<and> phone = '''')"
           "\<not> ((method = ''email'' \<or> method = ''both'') \<and> emailAddr = '''')"
    using assms by (auto simp add: RegisterBatch_def split: if_splits)
  have g: "grp = \<lparr>grp_ID = batchGroupID e,
                      grp_AgentIDs = map ai_ID agents,
                      grp_Results = fmempty,
                      grp_Method = method,
                      grp_CustomerPhone = phone,
                      grp_CustomerEmail = emailAddr,
                      grp_CustomerName = cn,
                      grp_PersonaName = personaName (reg w),
                      grp_RequestedAt = TimeAt (time_Now e (2 * length agents + 1)),
                      grp_CompletedAt = TimeZero,
                      grp_Status = ''pending'',
                      grp_Error = ''''\<rparr>"
    using assms ok by (simp add: RegisterBatch_def Let_def)
  have r: "reg w0 = (reg w)\<lparr>callbacks := registerMembers ?mk 0 agents (callbacks (reg w)),
                              groups := fmupd (batchGroupID e) grp (groups (reg w))\<rparr>"
    using assms ok unfolding g by (auto simp add: RegisterBatch_def Let_def)
  show id: "grp_ID grp = batchGroupID e" by (simp add: g)
  show "fmlookup (groups (reg w0)) (grp_ID grp) = Some grp" by (simp add: r id)
  show "grp_Method grp = method" by (simp add: g)
  show "emailClient (reg w0) = emailClient (reg w)" by (simp add: r)
  have mem: "\<forall>a \<in> set (map ai_ID agents). \<exists>cb. fmlookup (callbacks (reg w0)) a = Some cb \<and>
            cb_GroupID cb = grp_ID grp \<and> cb_Status cb = ''pending''"
  proof
    fix a assume "a \<in> set (map ai_ID agents)"
    then have "a \<in> ai_ID ` set agents" by simp
    from registerMembers_member [OF this, of ?mk 0 "callbacks (reg w)"]
    obtain j ag where "fmlookup (registerMembers ?mk 0 agents (callbacks (reg w))) a = Some (?mk j ag)"
      by blast
    then show "\<exists>cb. fmlookup (callbacks (reg w0)) a = Some cb \<and>
            cb_GroupID cb = grp_ID grp \<and> cb_Status cb = ''pending''"
      by (simp add: r id batchCallback_def)
  qed
  have ne: "grp_ID grp \<noteq> ''''" by (simp add: id batchGroupID_def)
  have "fmlookup (groups (reg w0)) (grp_ID grp) = Some (grp\<lparr>grp_Results := fmempty\<rparr>)"
    by (simp add: r id g)
  moreover have "grp_AgentIDs grp = map ai_ID agents" "grp_Status grp = ''pending''"
    by (simp_all add: g)
  moreover have "fmlookup (groups (reg w0)) (grp_ID grp) = Some grp" by (simp add: r id)
  ultimately show "waiting (grp_ID grp) (map ai_ID agents) {} w0 w0"
    unfolding waiting_def using ne mem
    by (intro conjI) (simp, simp, simp, metis fmdom'_empty, simp)
qed
lemma same_but_groups:
  "r = r0\<lparr>groups := g\<rparr> \<Longrightarrow>
   callbacks r = callbacks r0 \<and> history r = history r0 \<and> groupHistory r = groupHistory r0 \<and>
   vapiClient r = vapiClient r0 \<and> emailClient r = emailClient r0 \<and>
   getServerURL r = getServerURL r0"
  by simp

lemma fcard_fmdom: "fcard (fmdom m) = card (fmdom' m)"
  by (simp add: fcard.rep_eq fmdom'_alt_def)

lemma waiting_step:
  assumes wt: "waiting gid ids D w0 w"
    and a: "ci_AgentID info \<in> set ids"
    and open_barrier: "card (insert (ci_AgentID info) D) \<noteq> length ids"
  shows "waiting gid ids (insert (ci_AgentID info) D) w0 (OnAgentComplete e info w)"
proof -
  from wt obtain grp0 res where
    gid: "gid \<noteq> ''''"
    and r: "reg w = (reg w0)\<lparr>groups := groups (reg w)\<rparr>"
    and o: "outbox w = outbox w0"
    and g0: "fmlookup (groups (reg w0)) gid = Some grp0" "grp_ID grp0 = gid"
            "grp_AgentIDs grp0 = ids" "grp_Status grp0 = ''pending''"
    and res: "fmdom' res = D"
    and g: "fmlookup (groups (reg w)) gid = Some (grp0\<lparr>grp_Results := res\<rparr>)"
    and mem: "\<forall>a \<in> set ids. \<exists>cb. fmlookup (callbacks (reg w0)) a = Some cb \<and>
            cb_GroupID cb = gid \<and> cb_Status cb = ''pending''"
    unfolding waiting_def by blast
  have cbs: "callbacks (reg w) = callbacks (reg w0)"
    using same_but_groups [OF r] by simp
  obtain cb where cb: "fmlookup (callbacks (reg w)) (ci_AgentID info) = Some cb"
    "cb_GroupID cb = gid"
    using mem a cbs by auto
  let ?res = "fmupd (ci_AgentID info) info res"
  let ?grp = "grp0\<lparr>grp_Results := ?res\<rparr>"
  let ?w1 = "w\<lparr>reg := (reg w)\<lparr>groups := fmupd gid ?grp (groups (reg w))\<rparr>\<rparr>"
  have "fcard (fmdom ?res) = card (insert (ci_AgentID info) D)"
    unfolding fcard_fmdom by (simp add: res)
  then have n: "fcard (fmdom (grp_Results ?grp)) \<noteq> length (grp_AgentIDs ?grp)"
    using open_barrier by (simp add: g0 del: fmdom_fmupd)
  have eq: "OnAgentComplete e info w = persist e ?w1"
    using OnAgentComplete_group [of w info cb "grp0\<lparr>grp_Results := res\<rparr>" e] cb gid g n
    by (simp add: Let_def)
  have r1: "reg ?w1 = (reg w0)\<lparr>groups := groups (reg ?w1)\<rparr>"
    by (subst r) simp
  have d: "fmdom' ?res = insert (ci_AgentID info) D"
    by (simp add: res)
  have g1: "fmlookup (groups (reg ?w1)) gid = Some (grp0\<lparr>grp_Results := ?res\<rparr>)"
    by simp
  show ?thesis
    unfolding waiting_def eq persist_reg persist_outbox
    using gid r1 o g0 d g1 mem by (intro conjI exI [of _ grp0] exI [of _ ?res]) simp_all
qed

lemma waiting_prefix:
  assumes "waiting gid ids {} w0 w0"
    and "distinct (map (ci_AgentID \<circ> snd) evs)"
    and "set (map (ci_AgentID \<circ> snd) evs) \<subseteq> set ids"
    and "length evs < length ids"
  shows "waiting gid ids (set (map (ci_AgentID \<circ> snd) evs)) w0 (completeAll evs w0)"
  using assms(2-4)
proof (induction evs rule: rev_induct)
  case Nil
  then show ?case using assms(1) by simp
next
  case (snoc x xs)
  obtain e info where x: "x = (e, info)" by (cases x)
  have w: "waiting gid ids (set (map (ci_AgentID \<circ> snd) xs)) w0 (completeAll xs w0)"
    using snoc by simp
  have a: "ci_AgentID info \<in> set ids" using snoc.prems x by simp
  have "card (set (map (ci_AgentID \<circ> snd) xs)) \<le> length xs"
    by (metis card_length length_map)
  then have "card (insert (ci_AgentID info) (set (map (ci_AgentID \<circ> snd) xs))) \<le> Suc (length xs)"
    by (metis card_insert_le_m1 diff_Suc_1 le_SucI zero_less_Suc Suc_le_mono card_insert_if finite_set)
  then have c: "card (insert (ci_AgentID info) (set (map (ci_AgentID \<circ> snd) xs))) \<noteq> length ids"
    using snoc.prems(3) by simp
  show ?case
    using waiting_step [OF w a c, of e] by (simp add: completeAll_append x)
qed
lemma groupDispatch_outbox:
  "outbox (snd (groupDispatch e grp w)) =
     outbox w @
     (if (grp_Method grp = ''email'' \<or> grp_Method grp = ''both'') \<and> CanEmail (reg w)
      then [SendBatchComplete (batchContext e (reg w) grp)] else [])"
  by (simp add: groupDispatch_def Let_def split_def executeBatchEmail_def)

lemma waiting_release:
  assumes wt: "waiting gid ids D w0 w"
    and a: "ci_AgentID info \<in> set ids"
    and barrier: "card (insert (ci_AgentID info) D) = length ids"
    and w': "w' = OnAgentComplete e info w"
  shows "fmlookup (groups (reg w')) gid = None"
    and "\<exists>g. groupHistory (reg w') =
               (let gh = groupHistory (reg w0) @ [g] in if length gh > 50 then drop 1 gh else gh) \<and>
             grp_ID g = gid \<and> (grp_Status g = ''completed'' \<or> grp_Status g = ''failed'') \<and>
             fmdom' (grp_Results g) = insert (ci_AgentID info) D"
    and "\<forall>b \<in> set ids. fmlookup (callbacks (reg w')) b = None"
    and "\<exists>grp0. fmlookup (groups (reg w0)) gid = Some grp0 \<and>
           (if (grp_Method grp0 = ''email'' \<or> grp_Method grp0 = ''both'') \<and> CanEmail (reg w0)
            then \<exists>ctx. outbox w' = outbox w0 @ [SendBatchComplete ctx]
            else outbox w' = outbox w0)"
proof -
  from wt obtain grp0 res where
    gid: "gid \<noteq> ''''"
    and r: "reg w = (reg w0)\<lparr>groups := groups (reg w)\<rparr>"
    and o: "outbox w = outbox w0"
    and g0: "fmlookup (groups (reg w0)) gid = Some grp0" "grp_ID grp0 = gid"
            "grp_AgentIDs grp0 = ids" "grp_Status grp0 = ''pending''"
    and res: "fmdom' res = D"
    and g: "fmlookup (groups (reg w)) gid = Some (grp0\<lparr>grp_Results := res\<rparr>)"
    and mem: "\<forall>a \<in> set ids. \<exists>cb. fmlookup (callbacks (reg w0)) a = Some cb \<and>
            cb_GroupID cb = gid \<and> cb_Status cb = ''pending''"
    unfolding waiting_def by blast
  note same = same_but_groups [OF r]
  obtain cb where cb: "fmlookup (callbacks (reg w)) (ci_AgentID info) = Some cb"
    "cb_GroupID cb = gid"
    using mem a same by auto
  let ?res = "fmupd (ci_AgentID info) info res"
  define grp where "grp = grp0\<lparr>grp_Results := ?res\<rparr>"
  define w1 where "w1 = w\<lparr>reg := (reg w)\<lparr>groups := fmupd gid grp (groups (reg w))\<rparr>\<rparr>"
  have "fcard (fmdom ?res) = card (insert (ci_AgentID info) D)"
    unfolding fcard_fmdom by (simp add: res)
  then have n: "fcard (fmdom (grp_Results grp)) = length (grp_AgentIDs grp)"
    using barrier by (simp add: g0 grp_def del: fmdom_fmupd)
  have eq: "w' = persist e (executeGroupCallback e grp w1)"
    unfolding w'
    using OnAgentComplete_group [of w info cb "grp0\<lparr>grp_Results := res\<rparr>" e] cb gid g n
    by (simp add: Let_def grp_def w1_def)
  have gi: "grp_ID grp = gid" "grp_AgentIDs grp = ids"
    by (simp_all add: grp_def g0)
  have w1: "callbacks (reg w1) = callbacks (reg w0)" "groupHistory (reg w1) = groupHistory (reg w0)"
    "outbox w1 = outbox w0" "CanEmail (reg w1) = CanEmail (reg w0)"
    using same o by (simp_all add: w1_def CanEmail_def)
  show "fmlookup (groups (reg w')) gid = None"
    by (simp add: eq executeGroupCallback_groups gi)
  show "\<forall>b \<in> set ids. fmlookup (callbacks (reg w')) b = None"
    by (simp add: eq executeGroupCallback_callbacks gi)
  let ?g = "case fst (groupDispatch e (grp\<lparr>grp_CompletedAt := TimeAt (time_Now e 0)\<rparr>) w1) of
              Some msg \<Rightarrow> grp\<lparr>grp_CompletedAt := TimeAt (time_Now e 0),
                               grp_Status := ''failed'', grp_Error := msg\<rparr>
            | None \<Rightarrow> grp\<lparr>grp_CompletedAt := TimeAt (time_Now e 0), grp_Status := ''completed''\<rparr>"
  have gh: "groupHistory (reg w') =
              (let gh = groupHistory (reg w0) @ [?g] in if length gh > 50 then drop 1 gh else gh)"
    by (simp add: eq executeGroupCallback_groupHistory Let_def w1)
  have gr: "grp_Results grp = ?res"
    by (simp add: grp_def)
  have st: "grp_ID ?g = gid \<and> grp_Results ?g = ?res \<and>
            (grp_Status ?g = ''completed'' \<or> grp_Status ?g = ''failed'')"
    by (auto simp add: gi gr split: option.splits)
  have "fmdom' (grp_Results ?g) = insert (ci_AgentID info) D"
    using st by (simp add: res)
  then show "\<exists>g. groupHistory (reg w') =
               (let gh = groupHistory (reg w0) @ [g] in if length gh > 50 then drop 1 gh else gh) \<and>
             grp_ID g = gid \<and> (grp_Status g = ''completed'' \<or> grp_Status g = ''failed'') \<and>
             fmdom' (grp_Results g) = insert (ci_AgentID info) D"
    using gh st by blast
  have ob: "outbox w' = outbox w0 @
     (if (grp_Method grp0 = ''email'' \<or> grp_Method grp0 = ''both'') \<and> CanEmail (reg w0)
      then [SendBatchComplete (batchContext e (reg w1)
              (grp\<lparr>grp_CompletedAt := TimeAt (time_Now e 0)\<rparr>))] else [])"
    by (simp add: eq executeGroupCallback_outbox groupDispatch_outbox w1 grp_def)
  show "\<exists>grp0. fmlookup (groups (reg w0)) gid = Some grp0 \<and>
           (if (grp_Method grp0 = ''email'' \<or> grp_Method grp0 = ''both'') \<and> CanEmail (reg w0)
            then \<exists>ctx. outbox w' = outbox w0 @ [SendBatchComplete ctx]
            else outbox w' = outbox w0)"
    using g0(1) ob by (intro exI [of _ grp0]) auto
qed

lemma waiting_facts:
  assumes "waiting gid ids D w0 w"
  shows "\<exists>g. fmlookup (groups (reg w)) gid = Some g \<and> grp_Status g = ''pending'' \<and>
             fmdom' (grp_Results g) = D"
    and "groupHistory (reg w) = groupHistory (reg w0)"
    and "history (reg w) = history (reg w0)"
    and "callbacks (reg w) = callbacks (reg w0)"
    and "outbox w = outbox w0"
proof -
  from assms obtain grp0 res where
    r: "reg w = (reg w0)\<lparr>groups := groups (reg w)\<rparr>"
    and o: "outbox w = outbox w0"
    and g0: "grp_Status grp0 = ''pending''"
    and res: "fmdom' res = D"
    and g: "fmlookup (groups (reg w)) gid = Some (grp0\<lparr>grp_Results := res\<rparr>)"
    unfolding waiting_def by blast
  note same = same_but_groups [OF r]
  show "\<exists>g. fmlookup (groups (reg w)) gid = Some g \<and> grp_Status g = ''pending'' \<and>
             fmdom' (grp_Results g) = D"
    using g g0 res by simp
  show "groupHistory (reg w) = groupHistory (reg w0)" "history (reg w) = history (reg w0)"
    "callbacks (reg w) = callbacks (reg w0)" "outbox w = outbox w0"
    using same o by simp_all
qed

subsection \<open>Groups without members\<close>

lemma set_trim_one: "set (if length gh > n then drop 1 gh else gh) \<subseteq> set gh"
  by (simp add: set_drop_subset)

lemma Register_groups:
  "groups (reg (snd (Register e a n t p method phone emailAddr cn w))) = groups (reg w) \<and>
   groupHistory (reg (snd (Register e a n t p method phone emailAddr cn w))) = groupHistory (reg w)"
  by (simp add: Register_def Let_def)

lemma Cancel_groups:
  "groups (reg (snd (Cancel e a w))) = groups (reg w) \<and>
   groupHistory (reg (snd (Cancel e a w))) = groupHistory (reg w)"
  by (simp add: Cancel_def split: option.splits)

lemma SetAgentValidator_groups:
  "groups (reg (SetAgentValidator e fn w)) = groups (reg w) \<and>
   groupHistory (reg (SetAgentValidator e fn w)) = groupHistory (reg w)"
  by (cases fn) (simp_all add: SetAgentValidator_def cleanupOrphaned_def orphanLoop_others)

lemma lingering_cong:
  "lingering gid old w \<Longrightarrow> groups (reg w') = groups (reg w) \<Longrightarrow>
   groupHistory (reg w') = groupHistory (reg w) \<Longrightarrow> lingering gid old w'"
  by (simp add: lingering_def)

lemma lingering_RegisterBatch:
  assumes "lingering gid old w" and "batchGroupID e \<noteq> gid"
  shows "lingering gid old (snd (RegisterBatch e agents method phone emailAddr cn w))"
  using assms
  by (auto simp add: lingering_def RegisterBatch_def Let_def)

lemma lingering_OnAgentComplete:
  assumes l: "lingering gid old w"
  shows "lingering gid old (OnAgentComplete e info w)"
proof (cases "fmlookup (callbacks (reg w)) (ci_AgentID info)")
  case None
  then show ?thesis using l by (simp add: OnAgentComplete_unregistered)
next
  case (Some cb)
  show ?thesis
  proof (cases "cb_GroupID cb = ''''")
    case True
    have "groups (reg (OnAgentComplete e info w)) = groups (reg w)"
      "groupHistory (reg (OnAgentComplete e info w)) = groupHistory (reg w)"
      by (simp_all add: OnAgentComplete_single [OF Some True] executeCallback_reg Let_def)
    then show ?thesis using l lingering_cong by blast
  next
    case False
    show ?thesis
    proof (cases "fmlookup (groups (reg w)) (cb_GroupID cb)")
      case None
      then show ?thesis using l Some False by (simp add: OnAgentComplete_def)
    next
      case (Some grp0)
      let ?k = "cb_GroupID cb"
      define grp where "grp = grp0\<lparr>grp_Results := fmupd (ci_AgentID info) info (grp_Results grp0)\<rparr>"
      define w1 where "w1 = w\<lparr>reg := (reg w)\<lparr>groups := fmupd ?k grp (groups (reg w))\<rparr>\<rparr>"
      from l obtain g where
        wf: "fmpred (\<lambda>groupID grp. grp_ID grp = groupID) (groups (reg w))"
        and g: "fmlookup (groups (reg w)) gid = Some g" "grp_AgentIDs g = []"
               "grp_Status g = ''pending''"
        and h: "\<forall>h \<in> set (groupHistory (reg w)). grp_ID h = gid \<longrightarrow> h \<in> old"
        unfolding lingering_def by blast
      have id0: "grp_ID grp0 = ?k" using wf Some by auto
      have id: "grp_ID grp = ?k" by (simp add: grp_def id0)
      have eq: "OnAgentComplete e info w =
                  persist e (if fcard (fmdom (grp_Results grp)) = length (grp_AgentIDs grp)
                             then executeGroupCallback e grp w1 else w1)"
        using OnAgentComplete_group [OF \<open>fmlookup (callbacks (reg w)) (ci_AgentID info) = Some cb\<close>
                False Some, of e]
        by (simp add: Let_def grp_def w1_def)
      have pos: "fcard (fmdom (grp_Results grp)) \<noteq> 0"
        by (simp add: grp_def fcard_finsert)
      have l1: "lingering gid old w1"
      proof (cases "?k = gid")
        case True
        then have "grp0 = g" using Some g by simp
        then show ?thesis
          unfolding lingering_def w1_def using wf g h id True
          by (auto simp add: grp_def)
      next
        case False
        then show ?thesis
          unfolding lingering_def w1_def using wf g h id
          by auto
      qed
      show ?thesis
      proof (cases "fcard (fmdom (grp_Results grp)) = length (grp_AgentIDs grp)")
        case False
        then show ?thesis using l1 by (simp add: eq lingering_def)
      next
        case True
        have kg: "?k \<noteq> gid"
        proof
          assume "?k = gid"
          then have "grp0 = g" using Some g by simp
          then have "grp_AgentIDs grp = []" using g by (simp add: grp_def)
          then show False using True pos by simp
        qed
        from l1 obtain g1 where
          wf1: "fmpred (\<lambda>groupID grp. grp_ID grp = groupID) (groups (reg w1))"
          and g1: "fmlookup (groups (reg w1)) gid = Some g1" "grp_AgentIDs g1 = []"
                 "grp_Status g1 = ''pending''"
          and h1: "\<forall>h \<in> set (groupHistory (reg w1)). grp_ID h = gid \<longrightarrow> h \<in> old"
          unfolding lingering_def by blast
        let ?w2 = "executeGroupCallback e grp w1"
        have G: "groups (reg ?w2) = fmdrop ?k (groups (reg w1))"
          by (simp add: executeGroupCallback_groups id)
        have a: "fmpred (\<lambda>groupID grp. grp_ID grp = groupID) (groups (reg ?w2))"
          unfolding G using wf1 by (rule fmpred_drop)
        have b: "fmlookup (groups (reg ?w2)) gid = Some g1"
          unfolding G using g1 kg by simp
        have lastid: "grp_ID (case fst (groupDispatch e (grp\<lparr>grp_CompletedAt := TimeAt (time_Now e 0)\<rparr>) w1) of
              Some msg \<Rightarrow> grp\<lparr>grp_CompletedAt := TimeAt (time_Now e 0),
                               grp_Status := ''failed'', grp_Error := msg\<rparr>
            | None \<Rightarrow> grp\<lparr>grp_CompletedAt := TimeAt (time_Now e 0), grp_Status := ''completed''\<rparr>) = ?k"
          by (simp add: id split: option.splits)
        have c: "\<forall>h \<in> set (groupHistory (reg ?w2)). grp_ID h = gid \<longrightarrow> h \<in> old"
        proof (intro ballI impI)
          fix h assume hs: "h \<in> set (groupHistory (reg ?w2))" and hi: "grp_ID h = gid"
          let ?gh = "groupHistory (reg w1) @
                       [case fst (groupDispatch e (grp\<lparr>grp_CompletedAt := TimeAt (time_Now e 0)\<rparr>) w1) of
              Some msg \<Rightarrow> grp\<lparr>grp_CompletedAt := TimeAt (time_Now e 0),
                               grp_Status := ''failed'', grp_Error := msg\<rparr>
            | None \<Rightarrow> grp\<lparr>grp_CompletedAt := TimeAt (time_Now e 0), grp_Status := ''completed''\<rparr>]"
          have "set (groupHistory (reg ?w2)) \<subseteq> set ?gh"
            unfolding executeGroupCallback_groupHistory Let_def by (rule set_trim_one)
          then have "h \<in> set ?gh" using hs by blast
          then have "h \<in> set (groupHistory (reg w1))"
            using hi kg lastid by auto
          then show "h \<in> old" using h1 hi by blast
        qed
        show ?thesis
          using a b c g1 True by (simp add: eq lingering_def)
      qed
    qed
  qed
qed

lemma lingering_perform:
  assumes "lingering gid old w" and "\<not> names_group gid (e, op)"
  shows "lingering gid old (perform e op w)"
proof (cases op)
  case (OpRegister a n t p m ph em cn)
  then show ?thesis
    using assms(1) lingering_cong Register_groups by (metis perform.simps(1))
next
  case (OpRegisterBatch agents m ph em cn)
  then show ?thesis
    using assms by (simp add: lingering_RegisterBatch)
next
  case (OpOnAgentComplete info)
  then show ?thesis
    using assms(1) by (simp add: lingering_OnAgentComplete)
next
  case (OpCancel a)
  then show ?thesis
    using assms(1) lingering_cong Cancel_groups by (metis perform.simps(4))
next
  case (OpSetAgentValidator fn)
  then show ?thesis
    using assms(1) lingering_cong SetAgentValidator_groups by (metis perform.simps(5))
next
  case (OpSetServerURLFunc fn)
  then show ?thesis
    using assms(1) by (simp add: SetServerURLFunc_def lingering_def)
qed

lemma lingering_run:
  "lingering gid old w \<Longrightarrow> \<forall>x \<in> set ops. \<not> names_group gid x \<Longrightarrow>
   lingering gid old (run ops w)"
proof (induction ops arbitrary: w)
  case Nil
  then show ?case by simp
next
  case (Cons x ops)
  obtain e op where x: "x = (e, op)" by (cases x)
  have "lingering gid old (perform e op w)"
    using Cons.prems x by (simp add: lingering_perform)
  then show ?case
    using Cons.IH [of "perform e op w"] Cons.prems x by simp
qed

subsection \<open>Well-formedness is maintained\<close>

lemma registerMembers_fmpred:
  "fmpred P cbs \<Longrightarrow> (\<And>i agent. P (ai_ID agent) (mk i agent)) \<Longrightarrow>
   fmpred P (registerMembers mk i agents cbs)"
proof (induction agents arbitrary: i cbs)
  case Nil
  then show ?case by simp
next
  case (Cons agent agents)
  have "fmpred P (fmupd (ai_ID agent) (mk i agent) cbs)"
    using Cons.prems by (intro fmpred_upd)
  then show ?case
    using Cons.IH [of "fmupd (ai_ID agent) (mk i agent) cbs" "Suc i"] Cons.prems(2) by simp
qed

lemma wf_Register:
  "wf_Registry (reg w) \<Longrightarrow>
   wf_Registry (reg (snd (Register e a n t p m ph em cn w)))"
  by (auto simp add: wf_Registry_def Register_def Let_def)

lemma wf_RegisterBatch:
  assumes "wf_Registry (reg w)"
  shows "wf_Registry (reg (snd (RegisterBatch e agents m ph em cn w)))"
proof -
  have "fmpred (\<lambda>agentID cb. cb_AgentID cb = agentID)
          (registerMembers (batchCallback e (reg w) (batchGroupID e) m ph em cn) 0 agents
             (callbacks (reg w)))"
    using assms by (intro registerMembers_fmpred) (simp_all add: wf_Registry_def batchCallback_def)
  then show ?thesis
    using assms by (auto simp add: wf_Registry_def RegisterBatch_def Let_def)
qed

lemma wf_OnAgentComplete:
  assumes wf: "wf_Registry (reg w)"
  shows "wf_Registry (reg (OnAgentComplete e info w))"
proof (cases "fmlookup (callbacks (reg w)) (ci_AgentID info)")
  case None
  then show ?thesis using wf by (simp add: OnAgentComplete_unregistered)
next
  case (Some cb)
  show ?thesis
  proof (cases "cb_GroupID cb = ''''")
    case True
    show ?thesis
      using wf by (auto simp add: OnAgentComplete_single [OF Some True] executeCallback_reg
          Let_def wf_Registry_def)
  next
    case False
    show ?thesis
    proof (cases "fmlookup (groups (reg w)) (cb_GroupID cb)")
      case None
      then show ?thesis using wf Some False by (simp add: OnAgentComplete_def)
    next
      case g: (Some grp0)
      have id: "grp_ID grp0 = cb_GroupID cb"
        using wf g by (auto simp add: wf_Registry_def)
      show ?thesis
        unfolding OnAgentComplete_group [OF Some False g] Let_def persist_reg
        using wf id
        by (auto simp add: wf_Registry_def executeGroupCallback_groups
            executeGroupCallback_callbacks fmpred_iff split: if_splits)
    qed
  qed
qed

lemma wf_perform:
  assumes "wf_Registry (reg w)"
  shows "wf_Registry (reg (perform e op w))"
proof (cases op)
  case (OpRegister a n t p m ph em cn)
  then show ?thesis using assms by (simp add: wf_Register)
next
  case (OpRegisterBatch agents m ph em cn)
  then show ?thesis using assms by (simp add: wf_RegisterBatch)
next
  case (OpOnAgentComplete info)
  then show ?thesis using assms by (simp add: wf_OnAgentComplete)
next
  case (OpCancel a)
  then show ?thesis
    using assms by (auto simp add: Cancel_def wf_Registry_def split: option.splits)
next
  case (OpSetAgentValidator fn)
  then show ?thesis
    using assms
    by (cases fn)
       (auto simp add: SetAgentValidator_def cleanupOrphaned_def wf_Registry_def
          orphanLoop_callbacks orphanLoop_others)
next
  case (OpSetServerURLFunc fn)
  then show ?thesis using assms by (simp add: SetServerURLFunc_def wf_Registry_def)
qed

lemma wf_run: "wf_Registry (reg w) \<Longrightarrow> wf_Registry (reg (run ops w))"
proof (induction ops arbitrary: w)
  case Nil
  then show ?case by simp
next
  case (Cons x ops)
  obtain e op where "x = (e, op)" by (cases x)
  then show ?case using Cons by (simp add: wf_perform)
qed

lemma wf_NewRegistry_fresh:
  "files w (callbacks_path e
     \<lparr>callbacks = fmempty, groups = fmempty, history = [], groupHistory = [],
      vapiClient = vc, emailClient = ec, getServerURL = None, agentValidator = None,
      baseDir = dir, personaName = pname, personaEmail = pemail\<rparr>) = None \<Longrightarrow>
   wf_Registry (reg (NewRegistry e vc ec dir pname pemail w))"
  by (simp add: NewRegistry_def load_def wf_Registry_def Let_def)

subsection \<open>The length of the callback history\<close>

lemma Register_email_ok:
  assumes "CanEmail (reg w)" and "em \<noteq> ''''"
  shows "\<exists>cb. reg (snd (Register e a n t p ''email'' ph em cn w)) =
               (reg w)\<lparr>callbacks := fmupd a cb (callbacks (reg w))\<rparr> \<and>
             cb_GroupID cb = '''' \<and> cb_AgentID cb = a"
  using assms by (auto simp add: Register_def Let_def)

lemma register_then_complete:
  assumes "CanEmail (reg w)" and "em \<noteq> ''''"
    and "w' = OnAgentComplete e2 info (snd (Register e (ci_AgentID info) n t p ''email'' ph em cn w))"
  shows "length (history (reg w')) =
           (if 100 \<le> length (history (reg w)) then length (history (reg w))
            else length (history (reg w)) + 1)"
    and "emailClient (reg w') = emailClient (reg w)"
proof -
  let ?w1 = "snd (Register e (ci_AgentID info) n t p ''email'' ph em cn w)"
  obtain cb where r: "reg ?w1 = (reg w)\<lparr>callbacks := fmupd (ci_AgentID info) cb (callbacks (reg w))\<rparr>"
    and g: "cb_GroupID cb = ''''"
    using Register_email_ok [OF assms(1,2)] by blast
  have look: "fmlookup (callbacks (reg ?w1)) (ci_AgentID info) = Some cb"
    by (simp add: r)
  have eq: "w' = persist e2 (executeCallback e2 cb info ?w1)"
    unfolding assms(3) by (rule OnAgentComplete_single [OF look g])
  have h: "history (reg ?w1) = history (reg w)" by (simp add: r)
  show "length (history (reg w')) =
           (if 100 \<le> length (history (reg w)) then length (history (reg w))
            else length (history (reg w)) + 1)"
    by (simp add: eq executeCallback_history_length h)
  show "emailClient (reg w') = emailClient (reg w)"
    by (simp add: eq executeCallback_reg Let_def r)
qed

lemma ex_rounds_length:
  "CanEmail (reg w) \<Longrightarrow> length (history (reg w)) \<le> 100 \<Longrightarrow>
   length (history (reg (ex_rounds n w))) = min 100 (length (history (reg w)) + n) \<and>
   emailClient (reg (ex_rounds n w)) = emailClient (reg w)"
proof (induction n arbitrary: w)
  case 0
  then show ?case by simp
next
  case (Suc n)
  let ?w' = "OnAgentComplete ex_env (ex_info ''old'')
          (snd (Register ex_env ''old'' ''Gary'' ''build the site'' ''site'' ''email'' ''''
                  ''x@y.com'' ''Pat'' w))"
  have i: "ci_AgentID (ex_info ''old'') = ''old''" by (simp add: ex_info_def)
  have ne: "''x@y.com'' \<noteq> ''''" by simp
  note rc = register_then_complete [OF Suc.prems(1) ne, of ?w' ex_env "ex_info ''old''" ex_env
      "''Gary''" "''build the site''" "''site''" "''''" "''Pat''", unfolded i, OF refl]
  have c: "CanEmail (reg ?w')" using rc(2) Suc.prems(1) by (simp add: CanEmail_def)
  have l: "length (history (reg ?w')) \<le> 100" using rc(1) Suc.prems(2) by (simp split: if_splits)
  show ?case
    using Suc.IH [OF c l] rc Suc.prems(2) by (auto split: if_splits)
qed

text \<open>The two dispatch paths keep the histories within their capacities and evict the
  oldest entry first.\<close>

lemma executeCallback_fifo:
  "length (history (reg w)) = 100 \<Longrightarrow>
   history (reg (executeCallback e cb0 info w)) =
     drop 1 (history (reg w)) @ [last (history (reg (executeCallback e cb0 info w)))]"
  unfolding executeCallback_last unfolding executeCallback_history Let_def by simp

lemma executeGroupCallback_history_bound:
  "length (history (reg (executeGroupCallback e grp0 w))) \<le> 100"
  by (simp add: executeGroupCallback_reg Let_def)

lemma executeGroupCallback_groupHistory_bound:
  "length (groupHistory (reg w)) \<le> 50 \<Longrightarrow>
   length (groupHistory (reg (executeGroupCallback e grp0 w))) \<le> 50"
  by (auto simp add: executeGroupCallback_groupHistory Let_def)

lemma executeGroupCallback_fifo:
  "length (groupHistory (reg w)) = 50 \<Longrightarrow>
   groupHistory (reg (executeGroupCallback e grp0 w)) =
     drop 1 (groupHistory (reg w)) @ [last (groupHistory (reg (executeGroupCallback e grp0 w)))]"
  unfolding executeGroupCallback_last unfolding executeGroupCallback_groupHistory Let_def by simp

subsection \<open>Documents that JSON keeps\<close>

lemma json_string_from_valid:
  "utf8_valid_from n s \<Longrightarrow> json_string_from n s = s"
  by (induction n s rule: json_string_from.induct) (auto split: nat.splits)

lemma json_string_valid: "utf8_ValidString s \<Longrightarrow> json_string s = s"
  by (simp add: utf8_ValidString_def json_string_def json_string_from_valid)

lemma json_map_same:
  assumes "fmpred (\<lambda>k v. json_string k = k \<and> f v = v) m"
  shows "json_map f m = m"
proof (rule fmap_ext)
  fix k
  let ?ks = "sorted_list_of_fset (fmdom m)"
  have eq: "map (\<lambda>k. (json_string k, f (the (fmlookup m k)))) ?ks =
        map (\<lambda>k. (k, the (fmlookup m k))) ?ks"
  proof (rule map_cong [OF refl])
    fix x assume "x \<in> set ?ks"
    then obtain v where "fmlookup m x = Some v"
      by (auto simp add: fmlookup_dom_iff)
    then show "(json_string x, f (the (fmlookup m x))) = (x, the (fmlookup m x))"
      using assms by (auto simp add: fmpred_iff)
  qed
  have "fmlookup (json_map f m) k =
          map_of (rev (map (\<lambda>k. (json_string k, f (the (fmlookup m k)))) ?ks)) k"
    by (simp only: json_map_def fmlookup_of_list)
  also have "\<dots> = map_of (map (\<lambda>k. (k, the (fmlookup m k))) (rev ?ks)) k"
    unfolding eq by (simp only: rev_map)
  also have "\<dots> = fmlookup m k"
    by (cases "fmlookup m k")
       (auto simp add: map_of_map_restrict restrict_map_def fmlookup_dom_iff)
  finally show "fmlookup (json_map f m) k = fmlookup m k" .
qed

lemma json_Callback_valid: "utf8_Callback cb \<Longrightarrow> json_Callback cb = cb"
  by (simp add: utf8_Callback_def json_Callback_def json_string_valid)

lemma json_CompletionInfo_valid: "utf8_CompletionInfo info \<Longrightarrow> json_CompletionInfo info = info"
  by (simp add: utf8_CompletionInfo_def json_CompletionInfo_def json_string_valid)

lemma map_json_string_valid: "list_all utf8_ValidString xs \<Longrightarrow> map json_string xs = xs"
  by (induction xs) (simp_all add: json_string_valid)

lemma json_CallbackGroup_valid:
  assumes "utf8_CallbackGroup grp"
  shows "json_CallbackGroup grp = grp"
proof -
  have "fmpred (\<lambda>k v. json_string k = k \<and> json_CompletionInfo v = v) (grp_Results grp)"
    using assms
    by (auto simp add: utf8_CallbackGroup_def fmpred_iff json_string_valid
        json_CompletionInfo_valid)
  then have "json_map json_CompletionInfo (grp_Results grp) = grp_Results grp"
    by (rule json_map_same)
  then show ?thesis
    using assms
    by (simp add: utf8_CallbackGroup_def json_CallbackGroup_def json_string_valid
        map_json_string_valid)
qed

lemma json_document_valid:
  assumes "utf8_Registry r"
  shows "json_document
           \<lparr>p_Callbacks = Some (callbacks r), p_Groups = Some (groups r),
            p_History = Some (history r), p_GroupHistory = Some (groupHistory r)\<rparr> =
         \<lparr>p_Callbacks = Some (callbacks r), p_Groups = Some (groups r),
          p_History = Some (history r), p_GroupHistory = Some (groupHistory r)\<rparr>"
proof -
  have c: "json_map json_Callback (callbacks r) = callbacks r"
    using assms
    by (intro json_map_same)
       (auto simp add: utf8_Registry_def fmpred_iff json_string_valid json_Callback_valid)
  have g: "json_map json_CallbackGroup (groups r) = groups r"
    using assms
    by (intro json_map_same)
       (auto simp add: utf8_Registry_def fmpred_iff json_string_valid json_CallbackGroup_valid)
  have h: "map json_Callback (history r) = history r"
    using assms
    by (auto simp add: utf8_Registry_def list_all_iff json_Callback_valid intro: map_idI)
  have gh: "map json_CallbackGroup (groupHistory r) = groupHistory r"
    using assms
    by (auto simp add: utf8_Registry_def list_all_iff json_CallbackGroup_valid intro: map_idI)
  show ?thesis
    by (simp add: json_document_def c g h gh)
qed

lemma ascii_valid_from:
  "list_all (\<lambda>c. (of_char c :: nat) < 0x80) s \<Longrightarrow> utf8_valid_from 0 s"
  by (induction s) (simp_all add: Let_def)

lemma ascii_valid: "list_all (\<lambda>c. (of_char c :: nat) < 0x80) s \<Longrightarrow> utf8_ValidString s"
  by (simp add: utf8_ValidString_def ascii_valid_from)

lemma json_map_single: "json_map f (fmupd k v fmempty) = fmupd (json_string k) (f v) fmempty"
  by (simp add: json_map_def sorted_list_of_fset.rep_eq)

lemma reload_after_persist:
  assumes "os_MkdirAll_ok e1" and "os_WriteFile_ok e1"
    and "json_Marshal e1 = go_json_Marshal" and "json_Unmarshal e2 = go_json_Unmarshal"
    and "filepath_Join e2 = filepath_Join e1" and "os_ReadFile_ok e2"
    and "files w2 = files (persist e1 w)"
  shows "reg (NewRegistry e2 vc ec (baseDir (reg w)) pname pemail w2) =
           \<lparr>callbacks = json_map json_Callback (callbacks (reg w)),
            groups = json_map json_CallbackGroup (groups (reg w)),
            history = map json_Callback (history (reg w)),
            groupHistory = map json_CallbackGroup (groupHistory (reg w)),
            vapiClient = vc, emailClient = ec, getServerURL = None, agentValidator = None,
            baseDir = baseDir (reg w), personaName = pname, personaEmail = pemail\<rparr>"
  using assms
  by (simp add: NewRegistry_def load_def persist_def callbacks_path_def Let_def
      go_json_Marshal_def go_json_Unmarshal_def json_document_def)

section \<open>The claims\<close>

text \<open>
  Claim C9. If \<open>OnAgentComplete\<close> finds a pending callback whose non-empty group id is not a
  key of the groups map, it returns at once: no completion is recorded, nothing is
  dispatched, nothing is persisted, and the callback stays pending. The whole world
  (registry, files, trace of client calls) is the one before the call.
\<close>

theorem OnAgentComplete_missing_group:
  assumes "fmlookup (callbacks (reg w)) (ci_AgentID info) = Some cb"
    and "cb_Status cb = ''pending''"
    and "cb_GroupID cb \<noteq> ''''"
    and "fmlookup (groups (reg w)) (cb_GroupID cb) = None"
  shows "OnAgentComplete e info w = w"
  using assms by (simp add: OnAgentComplete_def)

theorem OnAgentComplete_missing_group_witness:
  "OnAgentComplete ex_env (ex_info ''a'') (ex_pending (ex_callback ''a'' ''email'' ''grp-7''))
     = ex_pending (ex_callback ''a'' ''email'' ''grp-7'')"
  using OnAgentComplete_missing_group
    [of "ex_pending (ex_callback ''a'' ''email'' ''grp-7'')" "ex_info ''a''"
        "ex_callback ''a'' ''email'' ''grp-7''" ex_env]
  by (simp add: ex_pending_def ex_callback_def ex_info_def ex_world_def ex_registry_def)

text \<open>
  Claim C5. \<open>Register\<close> returns an error and leaves the world as it was whenever the method
  is call or both and the phone is empty or no configured call client exists, or the
  method is email or both and the email address is empty or no configured email client
  exists. Otherwise it returns a pending callback for the agent id and stores it under
  that agent id, replacing whatever was pending there and touching no other entry; the
  pending map holds one callback per agent id.
\<close>

theorem Register_validates_then_stores:
  "(((method = ''call'' \<or> method = ''both'') \<and> (phone = '''' \<or> \<not> CanCall (reg w))) \<or>
    ((method = ''email'' \<or> method = ''both'') \<and> (emailAddr = '''' \<or> \<not> CanEmail (reg w)))
      \<longrightarrow> (\<exists>err. Register e a n t p method phone emailAddr cn w = (Inl err, w))) \<and>
   (\<not> (((method = ''call'' \<or> method = ''both'') \<and> (phone = '''' \<or> \<not> CanCall (reg w))) \<or>
       ((method = ''email'' \<or> method = ''both'') \<and> (emailAddr = '''' \<or> \<not> CanEmail (reg w))))
      \<longrightarrow> (\<exists>cb w'. Register e a n t p method phone emailAddr cn w = (Inr cb, w') \<and>
             cb_AgentID cb = a \<and> cb_Status cb = ''pending'' \<and> cb_GroupID cb = '''' \<and>
             reg w' = (reg w)\<lparr>callbacks := fmupd a cb (callbacks (reg w))\<rparr> \<and>
             fmlookup (callbacks (reg w')) a = Some cb \<and>
             (\<forall>b. b \<noteq> a \<longrightarrow> fmlookup (callbacks (reg w')) b = fmlookup (callbacks (reg w)) b) \<and>
             outbox w' = outbox w))"
  by (auto simp add: Register_def Let_def)

theorem Register_validates_then_stores_witness:
  "fst (Register ex_env ''a'' ''Gary'' ''build'' ''site'' ''call'' '''' ''x@y.com'' ''Pat'' ex_world)
     = Inl ''phone number required for call callback'' \<and>
   snd (Register ex_env ''a'' ''Gary'' ''build'' ''site'' ''both'' ''+1555'' ''x@y.com'' ''Pat''
          ex_world_noclients) = ex_world_noclients \<and>
   (\<exists>cb. fmlookup (callbacks (reg (snd (Register ex_env ''a'' ''Gary'' ''build'' ''site'' ''both''
             ''+1555'' ''x@y.com'' ''Pat'' (ex_pending (ex_callback ''a'' ''email'' ''''))))))
           ''a'' = Some cb \<and> cb_Method cb = ''both'' \<and> cb_Status cb = ''pending'')"
  using Register_validates_then_stores
    [of "''call''" "''''" ex_world "''x@y.com''" ex_env "''a''" "''Gary''" "''build''" "''site''" "''Pat''"]
    Register_validates_then_stores
    [of "''both''" "''+1555''" ex_world_noclients "''x@y.com''" ex_env "''a''" "''Gary''" "''build''" "''site''" "''Pat''"]
    Register_validates_then_stores
    [of "''both''" "''+1555''" "ex_pending (ex_callback ''a'' ''email'' '''')" "''x@y.com''" ex_env "''a''" "''Gary''" "''build''" "''site''" "''Pat''"]
  by (simp add: Register_def Let_def CanCall_def CanEmail_def ex_world_def ex_world_noclients_def
      ex_registry_def ex_pending_def ex_callback_def ex_vapi_def ex_email_def
      vapi_IsConfigured_def email_IsConfigured_def)

text \<open>
  Claim C4. \<open>RegisterBatch\<close> validates as \<open>Register\<close> does. It does not: with method email,
  a non-empty address and no email client at all, \<open>RegisterBatch\<close> succeeds, stores the
  member callback and the group, while \<open>Register\<close> on the same registry and contact data
  fails with \<open>email not configured for email callbacks\<close> and changes nothing.
\<close>

theorem RegisterBatch_skips_client_check:
  "\<not> isl (fst (RegisterBatch ex_env [ex_agent ''a''] ''email'' '''' ''x@y.com'' ''Pat''
               ex_world_noclients)) \<and>
   fmlookup (callbacks (reg (snd (RegisterBatch ex_env [ex_agent ''a''] ''email'' '''' ''x@y.com''
               ''Pat'' ex_world_noclients)))) ''a'' \<noteq> None \<and>
   fmlookup (groups (reg (snd (RegisterBatch ex_env [ex_agent ''a''] ''email'' '''' ''x@y.com''
               ''Pat'' ex_world_noclients)))) (batchGroupID ex_env) \<noteq> None \<and>
   Register ex_env ''a'' ''Gary'' ''build the site'' ''site'' ''email'' '''' ''x@y.com'' ''Pat''
       ex_world_noclients
     = (Inl ''email not configured for email callbacks'', ex_world_noclients)"
  by (simp add: RegisterBatch_def Register_def Let_def CanEmail_def ex_world_noclients_def
      ex_registry_def ex_agent_def)

text \<open>
  Claim C3. The callback history never holds more than 100 entries after a registry
  operation. \<open>cleanupOrphaned\<close> appends without trimming: after a hundred single callbacks
  were registered and completed on an empty registry the history holds 100 entries; a
  callback is then registered for agent \<open>z\<close>, and installing a validator that does not know
  \<open>z\<close> retires it and leaves 101 entries.
\<close>

theorem cleanupOrphaned_exceeds_capacity:
  "length (history (reg ex_full_history)) = 100 \<and>
   length (history (reg (SetAgentValidator (ex_env_range [''z'']) (Some (\<lambda>agentID. False))
                           ex_full_history))) = 101 \<and>
   fmlookup (callbacks (reg (SetAgentValidator (ex_env_range [''z'']) (Some (\<lambda>agentID. False))
                               ex_full_history))) ''z'' = None"
proof -
  have can: "CanEmail (reg ex_world)"
    by (simp add: CanEmail_def ex_world_def ex_registry_def ex_email_def email_IsConfigured_def)
  have h0: "length (history (reg ex_world)) \<le> 100"
    by (simp add: ex_world_def ex_registry_def)
  have "history (reg ex_world) = []"
    by (simp add: ex_world_def ex_registry_def)
  then have f: "length (history (reg (ex_rounds 100 ex_world))) = 100"
    and c: "CanEmail (reg (ex_rounds 100 ex_world))"
    using ex_rounds_length [OF can h0, of 100] can by (simp_all add: CanEmail_def)
  have ne: "''x@y.com'' \<noteq> ''''" by simp
  obtain cb where r: "reg ex_full_history =
      (reg (ex_rounds 100 ex_world))\<lparr>callbacks := fmupd ''z'' cb (callbacks (reg (ex_rounds 100 ex_world)))\<rparr>"
    unfolding ex_full_history_def using Register_email_ok [OF c ne] by blast
  show ?thesis
    using f by (simp add: r SetAgentValidator_def cleanupOrphaned_def ex_env_range_def)
qed

text \<open>
  Claim C6. For a single callback with method both, the call and the email are each
  attempted whatever the other returns: the trace of client calls gains the call when a
  call client is configured and the email when an email client is configured, and
  nothing is withdrawn. The retired callback is failed with \<open>call: c; email: m\<close> when both
  fail with \<open>c\<close> and \<open>m\<close>, failed with the one error when exactly one fails, and completed
  when neither fails.
\<close>

theorem both_channels_independent:
  assumes "fmlookup (callbacks (reg w)) (ci_AgentID info) = Some cb0"
    and "cb_GroupID cb0 = ''''"
    and "cb_Method cb0 = ''both''"
    and "cb = cb0\<lparr>cb_CompletedAt := TimeAt (time_Now e 0)\<rparr>"
    and "callErr = (if CanCall (reg w) then vapi_Call e else Some ''VAPI client not configured'')"
    and "emailErr = (if CanEmail (reg w) then email_SendTaskComplete e
                     else Some ''email client not configured'')"
    and "w' = OnAgentComplete e info w"
  shows "(\<forall>c m. callErr = Some c \<and> emailErr = Some m \<longrightarrow>
            last (history (reg w')) =
              cb\<lparr>cb_Status := ''failed'', cb_Error := ''call: '' @ c @ ''; email: '' @ m\<rparr>) \<and>
         (\<forall>c. callErr = Some c \<and> emailErr = None \<longrightarrow>
            last (history (reg w')) = cb\<lparr>cb_Status := ''failed'', cb_Error := c\<rparr>) \<and>
         (\<forall>m. callErr = None \<and> emailErr = Some m \<longrightarrow>
            last (history (reg w')) = cb\<lparr>cb_Status := ''failed'', cb_Error := m\<rparr>) \<and>
         (callErr = None \<and> emailErr = None \<longrightarrow>
            last (history (reg w')) = cb\<lparr>cb_Status := ''completed''\<rparr>) \<and>
         outbox w' =
           outbox w @
           (if CanCall (reg w)
            then [VapiCall (cb_CustomerPhone cb0) (cb_CustomerName cb0) (callContext cb info)]
            else []) @
           (if CanEmail (reg w) then [SendTaskComplete (emailContext (reg w) cb info)] else [])"
proof -
  have w': "w' = persist e (executeCallback e cb0 info w)"
    using assms(1,2,7) by (simp add: OnAgentComplete_single)
  have m: "cb_Method cb = ''both''"
    using assms(3,4) by simp
  have err: "fst (singleDispatch e cb info w) = bothErrors callErr emailErr"
    using singleDispatch_both_fst [OF m] assms(5,6) by simp
  have l: "last (history (reg w')) =
             (case bothErrors callErr emailErr of
                Some msg \<Rightarrow> cb\<lparr>cb_Status := ''failed'', cb_Error := msg\<rparr>
              | None \<Rightarrow> cb\<lparr>cb_Status := ''completed''\<rparr>)"
    unfolding w' persist_reg executeCallback_last Let_def assms(4) [symmetric] err ..
  have o: "outbox w' = outbox (snd (singleDispatch e cb info w))"
    using assms(4) by (simp add: w' executeCallback_outbox)
  have fx: "outbox w' =
           outbox w @
           (if CanCall (reg w)
            then [VapiCall (cb_CustomerPhone cb0) (cb_CustomerName cb0) (callContext cb info)]
            else []) @
           (if CanEmail (reg w) then [SendTaskComplete (emailContext (reg w) cb info)] else [])"
    unfolding o singleDispatch_both_outbox [OF m] using assms(4) by simp
  show ?thesis
    using l fx by (simp add: bothErrors_def)
qed

theorem both_channels_independent_witness:
  "last (history (reg (OnAgentComplete (ex_env_failing (Some ''busy'') (Some ''bounced''))
       (ex_info ''a'') (ex_pending (ex_callback ''a'' ''both'' ''''))))) =
     (ex_callback ''a'' ''both'' '''')
       \<lparr>cb_CompletedAt := TimeAt 1700000000, cb_Status := ''failed'',
        cb_Error := ''call: busy; email: bounced''\<rparr> \<and>
   last (history (reg (OnAgentComplete (ex_env_failing (Some ''busy'') None)
       (ex_info ''a'') (ex_pending (ex_callback ''a'' ''both'' ''''))))) =
     (ex_callback ''a'' ''both'' '''')
       \<lparr>cb_CompletedAt := TimeAt 1700000000, cb_Status := ''failed'', cb_Error := ''busy''\<rparr> \<and>
   last (history (reg (OnAgentComplete (ex_env_failing None (Some ''bounced''))
       (ex_info ''a'') (ex_pending (ex_callback ''a'' ''both'' ''''))))) =
     (ex_callback ''a'' ''both'' '''')
       \<lparr>cb_CompletedAt := TimeAt 1700000000, cb_Status := ''failed'', cb_Error := ''bounced''\<rparr> \<and>
   last (history (reg (OnAgentComplete (ex_env_failing None None)
       (ex_info ''a'') (ex_pending (ex_callback ''a'' ''both'' ''''))))) =
     (ex_callback ''a'' ''both'' '''')
       \<lparr>cb_CompletedAt := TimeAt 1700000000, cb_Status := ''completed''\<rparr> \<and>
   length (outbox (OnAgentComplete (ex_env_failing (Some ''busy'') None)
       (ex_info ''a'') (ex_pending (ex_callback ''a'' ''both'' '''')))) = 2"
proof -
  let ?w = "ex_pending (ex_callback ''a'' ''both'' '''')"
  have look: "fmlookup (callbacks (reg ?w)) (ci_AgentID (ex_info ''a'')) = Some (ex_callback ''a'' ''both'' '''')"
    by (simp add: ex_pending_def ex_callback_def ex_info_def)
  have g: "cb_GroupID (ex_callback ''a'' ''both'' '''') = ''''"
    and m: "cb_Method (ex_callback ''a'' ''both'' '''') = ''both''"
    by (simp_all add: ex_callback_def)
  have can: "CanCall (reg ?w)" "CanEmail (reg ?w)"
    by (simp_all add: ex_pending_def CanCall_def CanEmail_def ex_world_def ex_registry_def
        ex_vapi_def ex_email_def vapi_IsConfigured_def email_IsConfigured_def)
  have t: "time_Now (ex_env_failing x y) 0 = 1700000000" for x y
    by (simp add: ex_env_failing_def ex_env_def)
  have c: "vapi_Call (ex_env_failing x y) = x" "email_SendTaskComplete (ex_env_failing x y) = y" for x y
    by (simp_all add: ex_env_failing_def)
  have ob: "outbox ?w = []"
    by (simp add: ex_pending_def ex_world_def)
  note th = both_channels_independent [OF look g m refl refl refl refl]
  show ?thesis
    using th [of "ex_env_failing (Some ''busy'') (Some ''bounced'')"]
      th [of "ex_env_failing (Some ''busy'') None"]
      th [of "ex_env_failing None (Some ''bounced'')"]
      th [of "ex_env_failing None None"]
    by (simp add: can t c ob)
qed

text \<open>
  Claim C8. When a completion event makes the result map of a group with method call or
  both as large as its member list, the group is retired with status failed (never
  completed), it leaves the pending groups, every member callback that was pending is
  appended to the history with status failed, and every member leaves the pending map.
\<close>

theorem group_with_call_always_fails:
  assumes look: "fmlookup (callbacks (reg w)) (ci_AgentID info) = Some cb"
    and gid: "cb_GroupID cb \<noteq> ''''"
    and grp: "fmlookup (groups (reg w)) (cb_GroupID cb) = Some grp0"
    and meth: "grp_Method grp0 = ''call'' \<or> grp_Method grp0 = ''both''"
    and barrier: "fcard (fmdom (fmupd (ci_AgentID info) info (grp_Results grp0))) =
                    length (grp_AgentIDs grp0)"
    and w': "w' = OnAgentComplete e info w"
  shows "grp_Status (last (groupHistory (reg w'))) = ''failed'' \<and>
         grp_ID (last (groupHistory (reg w'))) = grp_ID grp0 \<and>
         fmlookup (groups (reg w')) (grp_ID grp0) = None \<and>
         (\<exists>new. history (reg w') =
                  (let h = history (reg w) @ new
                   in if length h > 100 then drop (length h - 100) h else h) \<and>
                (\<forall>x. x \<in> set new \<longleftrightarrow>
                   (\<exists>a \<in> set (grp_AgentIDs grp0). \<exists>c. fmlookup (callbacks (reg w)) a = Some c \<and>
                      x = c\<lparr>cb_Status := ''failed'',
                             cb_CompletedAt := TimeAt (time_Now e 0)\<rparr>))) \<and>
         (\<forall>a \<in> set (grp_AgentIDs grp0). fmlookup (callbacks (reg w')) a = None)"
proof -
  define grp where "grp = grp0\<lparr>grp_Results := fmupd (ci_AgentID info) info (grp_Results grp0)\<rparr>"
  define w1 where
    "w1 = w\<lparr>reg := (reg w)\<lparr>groups := fmupd (cb_GroupID cb) grp (groups (reg w))\<rparr>\<rparr>"
  have eq: "w' = persist e (executeGroupCallback e grp w1)"
    using barrier unfolding w' OnAgentComplete_group [OF look gid grp]
    by (simp add: Let_def grp_def w1_def)
  have m: "grp_Method (grp\<lparr>grp_CompletedAt := TimeAt (time_Now e 0)\<rparr>) = ''call'' \<or>
           grp_Method (grp\<lparr>grp_CompletedAt := TimeAt (time_Now e 0)\<rparr>) = ''both''"
    using meth by (simp add: grp_def)
  obtain msg where msg: "fst (groupDispatch e (grp\<lparr>grp_CompletedAt := TimeAt (time_Now e 0)\<rparr>) w1)
                           = Some msg"
    using groupDispatch_call_fails [OF m] by blast
  have last: "last (groupHistory (reg w')) =
                grp\<lparr>grp_CompletedAt := TimeAt (time_Now e 0), grp_Status := ''failed'',
                    grp_Error := msg\<rparr>"
    by (simp add: eq executeGroupCallback_last Let_def msg)
  have st: "grp_Status (last (groupHistory (reg w'))) = ''failed''"
    and id: "grp_ID (last (groupHistory (reg w'))) = grp_ID grp0"
    by (simp_all add: last grp_def)
  have ids: "grp_AgentIDs grp = grp_AgentIDs grp0" and gi: "grp_ID grp = grp_ID grp0"
    by (simp_all add: grp_def)
  have w1: "callbacks (reg w1) = callbacks (reg w)" "history (reg w1) = history (reg w)"
    by (simp_all add: w1_def)
  have gone: "fmlookup (groups (reg w')) (grp_ID grp0) = None"
    by (simp add: eq executeGroupCallback_groups gi)
  have cbs: "\<forall>a \<in> set (grp_AgentIDs grp0). fmlookup (callbacks (reg w')) a = None"
    by (simp add: eq executeGroupCallback_callbacks ids w1)
  have hist: "\<exists>new. history (reg w') =
                  (let h = history (reg w) @ new
                   in if length h > 100 then drop (length h - 100) h else h) \<and>
                (\<forall>x. x \<in> set new \<longleftrightarrow>
                   (\<exists>a \<in> set (grp_AgentIDs grp0). \<exists>c. fmlookup (callbacks (reg w)) a = Some c \<and>
                      x = c\<lparr>cb_Status := ''failed'',
                             cb_CompletedAt := TimeAt (time_Now e 0)\<rparr>))"
    using executeGroupCallback_history [of e grp w1] st
    unfolding eq persist_reg ids w1 by auto
  show ?thesis
    using st id gone hist cbs by blast
qed
theorem group_with_call_always_fails_witness:
  "grp_Status (last (groupHistory (reg (OnAgentComplete ex_env (ex_info ''a'') (ex_batch ''both''))))) = ''failed'' \<and>
   fmlookup (callbacks (reg (OnAgentComplete ex_env (ex_info ''a'') (ex_batch ''both'')))) ''a'' = None \<and>
   fmlookup (callbacks (reg (OnAgentComplete ex_env (ex_info ''a'') (ex_batch ''both'')))) ''b'' = None \<and>
   fmlookup (groups (reg (OnAgentComplete ex_env (ex_info ''a'') (ex_batch ''both'')))) ''grp-1'' = None"
proof -
  have look: "fmlookup (callbacks (reg (ex_batch ''both''))) (ci_AgentID (ex_info ''a'')) =
                Some (ex_callback ''a'' ''both'' ''grp-1'')"
    by (simp add: ex_batch_def ex_info_def)
  have gid: "cb_GroupID (ex_callback ''a'' ''both'' ''grp-1'') \<noteq> ''''"
    by (simp add: ex_callback_def)
  have grp: "fmlookup (groups (reg (ex_batch ''both''))) (cb_GroupID (ex_callback ''a'' ''both'' ''grp-1''))
               = Some (ex_group ''both'')"
    by (simp add: ex_batch_def ex_callback_def)
  have meth: "grp_Method (ex_group ''both'') = ''call'' \<or> grp_Method (ex_group ''both'') = ''both''"
    by (simp add: ex_group_def)
  have barrier: "fcard (fmdom (fmupd (ci_AgentID (ex_info ''a'')) (ex_info ''a'')
                   (grp_Results (ex_group ''both'')))) = length (grp_AgentIDs (ex_group ''both''))"
    by (simp add: ex_group_def ex_info_def fcard_finsert_if)
  show ?thesis
    using group_with_call_always_fails [OF look gid grp meth barrier refl, of ex_env]
    by (simp add: ex_group_def)
qed

text \<open>
  Claim C7, as stated: a registry constructed over the base directory of a registry that
  has just persisted its state holds pending callbacks, groups and histories identical to
  the writer's. It fails for a string that is not valid UTF-8: \<open>Register\<close> accepts the
  task summary consisting of the byte 0xFF, stores and persists it, and the registry
  constructed over the same directory holds the callback with the task summary
  0xEF 0xBF 0xBD, the encoding of U+FFFD that \<open>json.MarshalIndent\<close> wrote in its place.
\<close>

theorem reload_replaces_invalid_utf8:
  "map_option cb_TaskSummary (Get ''a'' ex_registered_bad) = Some [CHR 0xFF] \<and>
   map_option cb_TaskSummary (Get ''a'' ex_reloaded_bad) = Some [CHR 0xEF, CHR 0xBF, CHR 0xBD]"
proof -
  let ?cb = "\<lparr>cb_ID = ''cb-'' @ ''a'' @ ''-'' @ itoa (time_Now ex_env_go 0),
                   cb_AgentID = ''a'',
                   cb_AgentName = ''Gary'',
                   cb_TaskSummary = [CHR 0xFF],
                   cb_ProjectName = ''site'',
                   cb_Method = ''email'',
                   cb_CustomerPhone = '''',
                   cb_CustomerEmail = ''x@y.com'',
                   cb_CustomerName = ''Pat'',
                   cb_PersonaName = personaName (reg ex_world),
                   cb_RequestedAt = TimeAt (time_Now ex_env_go 1),
                   cb_CompletedAt = TimeZero,
                   cb_Status = ''pending'',
                   cb_Error = '''',
                   cb_GroupID = ''''\<rparr>"
  let ?w1 = "ex_world\<lparr>reg := (reg ex_world)\<lparr>callbacks := fmupd ''a'' ?cb (callbacks (reg ex_world))\<rparr>\<rparr>"
  have can: "CanEmail (reg ex_world)"
    by (simp add: CanEmail_def ex_world_def ex_registry_def ex_email_def email_IsConfigured_def)
  have r: "ex_registered_bad = persist ex_env_go ?w1"
    using can by (simp add: ex_registered_bad_def Register_def Let_def)
  have c: "callbacks (reg ex_world) = fmempty"
    by (simp add: ex_world_def ex_registry_def)
  have b: "baseDir (reg ?w1) = ''/srv''"
    by (simp add: ex_world_def ex_registry_def)
  have e: "os_MkdirAll_ok ex_env_go" "os_WriteFile_ok ex_env_go" "os_ReadFile_ok ex_env_go"
    "json_Marshal ex_env_go = go_json_Marshal" "json_Unmarshal ex_env_go = go_json_Unmarshal"
    by (simp_all add: ex_env_go_def ex_env_def)
  have f: "files (ex_world_noclients\<lparr>files := files ex_registered_bad\<rparr>) = files (persist ex_env_go ?w1)"
    by (simp add: r)
  have key: "json_string ''a'' = ''a''"
    by (simp add: json_string_def Let_def)
  have bad: "json_string [CHR 0xFF] = [CHR 0xEF, CHR 0xBF, CHR 0xBD]"
    by (simp add: json_string_def Let_def)
  have 1: "map_option cb_TaskSummary (Get ''a'' ex_registered_bad) = Some [CHR 0xFF]"
    by (simp add: Get_def r)
  have "reg ex_reloaded_bad =
           \<lparr>callbacks = json_map json_Callback (callbacks (reg ?w1)),
            groups = json_map json_CallbackGroup (groups (reg ?w1)),
            history = map json_Callback (history (reg ?w1)),
            groupHistory = map json_CallbackGroup (groupHistory (reg ?w1)),
            vapiClient = Some ex_vapi, emailClient = Some ex_email, getServerURL = None,
            agentValidator = None,
            baseDir = baseDir (reg ?w1), personaName = ''Tony'', personaEmail = ''tony@example.com''\<rparr>"
    unfolding ex_reloaded_bad_def
    using reload_after_persist [OF e(1,2,4,5) refl e(3) f, of "Some ex_vapi" "Some ex_email" "''Tony''" "''tony@example.com''"]
    unfolding b .
  then have 2: "map_option cb_TaskSummary (Get ''a'' ex_reloaded_bad) = Some [CHR 0xEF, CHR 0xBF, CHR 0xBD]"
    by (simp add: Get_def c json_map_single key json_Callback_def bad)
  show ?thesis using 1 2 by simp
qed

text \<open>
  Claim C7, amended. Let a registry persist its state with the directory created and the
  file written, and let a new registry be constructed over the same base directory in
  any world that holds the same files (whatever registry that world held before, with
  the file readable). Its pending callbacks, pending groups, callback history and group
  history are those of the writer with every string (map keys included) passed through
  the JSON string encoding, which replaces each byte that is not part of a valid UTF-8
  encoding by U+FFFD; they are identical to the writer's when every string of the
  writer's four components is valid UTF-8.
\<close>

theorem persist_then_load_identity:
  assumes "os_MkdirAll_ok e1" and "os_WriteFile_ok e1"
    and "json_Marshal e1 = go_json_Marshal" and "json_Unmarshal e2 = go_json_Unmarshal"
    and "filepath_Join e2 = filepath_Join e1" and "os_ReadFile_ok e2"
    and "files w2 = files (persist e1 w)"
    and "w' = NewRegistry e2 vc ec (baseDir (reg w)) pname pemail w2"
  shows "callbacks (reg w') = json_map json_Callback (callbacks (reg w)) \<and>
         groups (reg w') = json_map json_CallbackGroup (groups (reg w)) \<and>
         history (reg w') = map json_Callback (history (reg w)) \<and>
         groupHistory (reg w') = map json_CallbackGroup (groupHistory (reg w)) \<and>
         (utf8_Registry (reg w) \<longrightarrow>
            callbacks (reg w') = callbacks (reg w) \<and> groups (reg w') = groups (reg w) \<and>
            history (reg w') = history (reg w) \<and> groupHistory (reg w') = groupHistory (reg w))"
proof -
  have r: "reg w' =
           \<lparr>callbacks = json_map json_Callback (callbacks (reg w)),
            groups = json_map json_CallbackGroup (groups (reg w)),
            history = map json_Callback (history (reg w)),
            groupHistory = map json_CallbackGroup (groupHistory (reg w)),
            vapiClient = vc, emailClient = ec, getServerURL = None, agentValidator = None,
            baseDir = baseDir (reg w), personaName = pname, personaEmail = pemail\<rparr>"
    unfolding assms(8) by (rule reload_after_persist [OF assms(1-7)])
  have "json_document
           \<lparr>p_Callbacks = Some (callbacks (reg w)), p_Groups = Some (groups (reg w)),
            p_History = Some (history (reg w)), p_GroupHistory = Some (groupHistory (reg w))\<rparr> =
         \<lparr>p_Callbacks = Some (callbacks (reg w)), p_Groups = Some (groups (reg w)),
          p_History = Some (history (reg w)), p_GroupHistory = Some (groupHistory (reg w))\<rparr>"
    if "utf8_Registry (reg w)"
    by (rule json_document_valid [OF that])
  then show ?thesis
    by (simp add: r json_document_def)
qed

theorem persist_then_load_identity_witness:
  "callbacks (reg (NewRegistry ex_env_go None None ''/srv'' ''Tony'' ''tony@example.com''
      (ex_world_noclients\<lparr>files := files (persist ex_env_go (ex_batch ''email''))\<rparr>)))
     = callbacks (reg (ex_batch ''email'')) \<and>
   groups (reg (NewRegistry ex_env_go None None ''/srv'' ''Tony'' ''tony@example.com''
      (ex_world_noclients\<lparr>files := files (persist ex_env_go (ex_batch ''email''))\<rparr>)))
     = groups (reg (ex_batch ''email'')) \<and>
   fmlookup (callbacks (reg (NewRegistry ex_env_go None None ''/srv'' ''Tony'' ''tony@example.com''
      (ex_world_noclients\<lparr>files := files (persist ex_env_go (ex_batch ''email''))\<rparr>)))) ''a''
     = Some (ex_callback ''a'' ''email'' ''grp-1'') \<and>
   fmlookup (callbacks (reg ex_world_noclients)) ''a'' = None"
proof -
  let ?w = "ex_batch ''email''"
  let ?w2 = "ex_world_noclients\<lparr>files := files (persist ex_env_go ?w)\<rparr>"
  have e: "os_MkdirAll_ok ex_env_go" "os_WriteFile_ok ex_env_go" "os_ReadFile_ok ex_env_go"
    "json_Marshal ex_env_go = go_json_Marshal" "json_Unmarshal ex_env_go = go_json_Unmarshal"
    by (simp_all add: ex_env_go_def ex_env_def)
  have f: "files ?w2 = files (persist ex_env_go ?w)"
    by simp
  have b: "baseDir (reg ?w) = ''/srv''"
    by (simp add: ex_batch_def ex_world_def ex_registry_def)
  have cb: "utf8_Callback (ex_callback ''a'' ''email'' ''grp-1'')"
    "utf8_Callback (ex_callback ''b'' ''email'' ''grp-1'')"
    by (simp_all add: utf8_Callback_def ex_callback_def ascii_valid)
  have ci: "utf8_CompletionInfo (ex_info ''b'')"
    by (simp add: utf8_CompletionInfo_def ex_info_def ascii_valid)
  have ab: "utf8_ValidString ''a''" "utf8_ValidString ''b''" "utf8_ValidString ''grp-1''"
    by (simp_all add: ascii_valid)
  have g: "utf8_CallbackGroup (ex_group ''email'')"
    using ab ci
    by (auto simp add: utf8_CallbackGroup_def ex_group_def ascii_valid fmpred_iff
        split: if_splits)
  have u: "utf8_Registry (reg ?w)"
    using ab cb g
    by (auto simp add: utf8_Registry_def ex_batch_def ex_world_def ex_registry_def fmpred_iff
        split: if_splits)
  have l: "fmlookup (callbacks (reg ?w)) ''a'' = Some (ex_callback ''a'' ''email'' ''grp-1'')"
    by (simp add: ex_batch_def)
  have n: "fmlookup (callbacks (reg ex_world_noclients)) ''a'' = None"
    by (simp add: ex_world_noclients_def ex_registry_def)
  let ?w' = "NewRegistry ex_env_go None None (baseDir (reg ?w)) ''Tony'' ''tony@example.com'' ?w2"
  from persist_then_load_identity [OF e(1,2,4,5) refl e(3) f refl, of None None "''Tony''"
      "''tony@example.com''"] u
  have "callbacks (reg ?w') = callbacks (reg ?w) \<and> groups (reg ?w') = groups (reg ?w)"
    by blast
  then show ?thesis
    unfolding b using l n by simp
qed







text \<open>
  Claim C10. \<open>RegisterBatch\<close> with an empty member list (and contact data that passes its
  validation) succeeds, creates no callback and stores a group with no member agent ids.
  Whatever operations follow, as long as no later \<open>RegisterBatch\<close> generates the same group
  id again, the group is still in the pending groups map, still pending and still without
  members, and no group bearing its id has been added to the group history: the barrier
  test is only made after a result was recorded, when the result map is not empty.
\<close>

theorem empty_batch_never_dispatched:
  assumes "\<not> ((method = ''call'' \<or> method = ''both'') \<and> phone = '''')"
    and "\<not> ((method = ''email'' \<or> method = ''both'') \<and> emailAddr = '''')"
    and "wf_Registry (reg w)"
    and "\<forall>x \<in> set ops. \<not> names_group (batchGroupID e0) x"
  shows "\<exists>grp w0. RegisterBatch e0 [] method phone emailAddr cn w = (Inr grp, w0) \<and>
           grp_AgentIDs grp = [] \<and> grp_ID grp = batchGroupID e0 \<and>
           callbacks (reg w0) = callbacks (reg w) \<and>
           fmlookup (groups (reg w0)) (grp_ID grp) = Some grp \<and>
           (\<exists>g. fmlookup (groups (reg (run ops w0))) (grp_ID grp) = Some g \<and>
                 grp_AgentIDs g = [] \<and> grp_Status g = ''pending'') \<and>
           (\<forall>h \<in> set (groupHistory (reg (run ops w0))).
              grp_ID h = grp_ID grp \<longrightarrow> h \<in> set (groupHistory (reg w)))"
proof -
  obtain grp w0 where rb: "RegisterBatch e0 [] method phone emailAddr cn w = (Inr grp, w0)"
    using assms(1,2) by (simp add: RegisterBatch_def Let_def)
  have g: "grp_AgentIDs grp = []" "grp_ID grp = batchGroupID e0" "grp_Status grp = ''pending''"
    using rb assms(1,2) by (auto simp add: RegisterBatch_def Let_def)
  have r: "reg w0 = (reg w)\<lparr>groups := fmupd (batchGroupID e0) grp (groups (reg w))\<rparr>"
    using rb assms(1,2) by (auto simp add: RegisterBatch_def Let_def)
  have l0: "lingering (batchGroupID e0) (set (groupHistory (reg w))) w0"
    using assms(3) g by (auto simp add: lingering_def r wf_Registry_def)
  have l: "lingering (batchGroupID e0) (set (groupHistory (reg w))) (run ops w0)"
    using lingering_run [OF l0 assms(4)] .
  show ?thesis
    using rb g r l unfolding lingering_def by (intro exI [of _ grp] exI [of _ w0]) simp
qed

theorem empty_batch_never_dispatched_witness:
  "fst (RegisterBatch ex_env [] ''email'' '''' ''x@y.com'' ''Pat'' ex_world) = Inr
     (ex_group3\<lparr>grp_AgentIDs := [], grp_RequestedAt := TimeAt (time_Now ex_env 1)\<rparr>) \<and>
   (\<exists>g. fmlookup (groups (reg (run ex_operations
            (snd (RegisterBatch ex_env [] ''email'' '''' ''x@y.com'' ''Pat'' ex_world)))))
          (batchGroupID ex_env) = Some g \<and> grp_AgentIDs g = [] \<and> grp_Status g = ''pending'')"
proof -
  have v: "\<not> ((''email'' = ''call'' \<or> ''email'' = ''both'') \<and> '''' = '''')"
          "\<not> ((''email'' = ''email'' \<or> ''email'' = ''both'') \<and> ''x@y.com'' = '''')"
    by simp_all
  have wf: "wf_Registry (reg ex_world)"
    by (simp add: wf_Registry_def ex_world_def ex_registry_def)
  have d: "digits 1700000009 \<noteq> digits 1700000000"
    by (simp add: digits.simps)
  have fresh: "\<forall>x \<in> set ex_operations. \<not> names_group (batchGroupID ex_env) x"
    using d by (simp add: ex_operations_def batchGroupID_def itoa_def ex_env_later_def ex_env_def)
  have f: "fst (RegisterBatch ex_env [] ''email'' '''' ''x@y.com'' ''Pat'' ex_world) = Inr
     (ex_group3\<lparr>grp_AgentIDs := [], grp_RequestedAt := TimeAt (time_Now ex_env 1)\<rparr>)"
    by (simp add: RegisterBatch_def Let_def ex_group3_def ex_world_def ex_registry_def)
  from empty_batch_never_dispatched [OF v wf fresh, of "''Pat''"] f
  show ?thesis by auto
qed

end
